theory Spec2Isabelle
  imports Main "HOL-Library.Finite_Map"
begin

section \<open>Python values and exceptions\<close>

text \<open>
  The module \<^verbatim>\<open>google/cloud/bigquery/_helpers.py\<close> is dynamically typed. Its values
  are modelled by one datatype \<open>pyval\<close>; an exception is a value of \<open>error\<close>, and a
  function that can raise returns \<open>error + 'a\<close> (\<open>Inl\<close> the exception).

  Strings are \<open>char list\<close> (8-bit characters; code points beyond that are outside the
  model), \<open>bytes\<close> likewise. The message of an exception raised by the module itself is
  the module's message; the message of an exception raised inside a library call is
  not modelled and is the empty string.
\<close>

datatype error =
    TypeError string
  | ValueError string
  | AttributeError string
  | OverflowError string
  | KeyError string
  | IndexError string
  | InvalidOperation string

text \<open>
  A \<^verbatim>\<open>float\<close>: a finite double is the rational number it denotes (not every rational
  is a double; the theorems quantify over the larger set), or one of the three special
  values.
\<close>

datatype pyfloat = Finite rat | PosInf | NegInf | NaN

text \<open>A \<^verbatim>\<open>decimal.Decimal\<close>: sign, coefficient and exponent, or a special value.\<close>

datatype pydecimal = DecFinite bool nat int | DecInfinity bool | DecNaN

text \<open>
  \<^verbatim>\<open>tzinfo\<close>: the object \<^verbatim>\<open>UTC\<close> of \<^verbatim>\<open>google.cloud._helpers\<close>, or another zone
  given by its offset from UTC in microseconds.
\<close>

datatype tzinfo = UTC | FixedOffset int

record date =
  year :: nat
  month :: nat
  day :: nat

record time =
  hour :: nat
  minute :: nat
  second :: nat
  microsecond :: nat
  tzinfo :: "tzinfo option"

record datetime =
  dt_date :: date
  dt_timetz :: time

text \<open>\<^verbatim>\<open>dateutil.relativedelta.relativedelta\<close>, the relative fields only.\<close>

record relativedelta =
  years :: int
  months :: int
  days :: int
  hours :: int
  minutes :: int
  seconds :: int
  microseconds :: int

datatype pyval =
    VNone
  | VBool bool
  | VInt int
  | VFloat pyfloat
  | VStr string
  | VBytes string
  | VDecimal pydecimal
  | VDate date
  | VTime time
  | VDatetime datetime
  | VInterval relativedelta
  | VList "pyval list"
  | VTuple "pyval list"
  | VDict "(string, pyval) fmap"

section \<open>Schema fields\<close>

text \<open>
  \<^verbatim>\<open>SchemaField\<close> is defined outside the module, which reads four attributes of it:
  \<^verbatim>\<open>name\<close>, \<^verbatim>\<open>field_type\<close>, \<^verbatim>\<open>mode\<close> and \<^verbatim>\<open>fields\<close> (the subfields of a record).
  Type and mode are strings, compared with string literals as the module does.
\<close>

datatype field = Field (name: string) (field_type: string) (mode: string) (fields: "field list")

section \<open>Built-in conversions\<close>

subsection \<open>Characters and decimal numerals\<close>

definition is_digit :: "char \<Rightarrow> bool" where
  "is_digit c = (c \<in> set ''0123456789'')"

definition digit_char :: "nat \<Rightarrow> char" where
  "digit_char n = ''0123456789'' ! n"

definition digit_val :: "char \<Rightarrow> nat" where
  "digit_val c = of_char c - 48"

text \<open>The value of a string of decimal digits, most significant first.\<close>

definition digits_val :: "string \<Rightarrow> nat" where
  "digits_val s = foldl (\<lambda>a c. 10 * a + digit_val c) 0 s"

text \<open>The decimal digits of a natural number, without leading zeros.\<close>

function digits_of :: "nat \<Rightarrow> string" where
  "digits_of n = (if n < 10 then [digit_char n] else digits_of (n div 10) @ [digit_char (n mod 10)])"
  by pat_completeness auto
termination
  by (relation "measure id") auto

declare digits_of.simps [simp del]

text \<open>\<^verbatim>\<open>str(i)\<close> for an \<^verbatim>\<open>int\<close>.\<close>

definition str_int :: "int \<Rightarrow> string" where
  "str_int i = (if i < 0 then CHR ''-'' # digits_of (nat (- i)) else digits_of (nat i))"

text \<open>\<^verbatim>\<open>'%0wd' % n\<close> for \<open>n \<ge> 0\<close>: the digits, padded with zeros on the left to width \<open>w\<close>.\<close>

definition zpad :: "nat \<Rightarrow> nat \<Rightarrow> string" where
  "zpad w n = replicate (w - length (digits_of n)) CHR ''0'' @ digits_of n"

text \<open>
  White space as \<^verbatim>\<open>int(s)\<close> skips it around the numeral. For a string: tab to
  carriage return and the space, and the two other 8-bit characters that are Unicode white
  space (U+0085 and U+00A0), which the conversion first turns into spaces; the
  separators U+001C to U+001F are not skipped. For bytes: the ASCII white space only.
\<close>

definition is_space :: "char \<Rightarrow> bool" where
  "is_space c = ((of_char c :: nat) \<in> {9, 10, 11, 12, 13, 32, 133, 160})"

definition is_space_ascii :: "char \<Rightarrow> bool" where
  "is_space_ascii c = ((of_char c :: nat) \<in> {9, 10, 11, 12, 13, 32})"

definition strip :: "string \<Rightarrow> string" where
  "strip s = rev (dropWhile is_space (rev (dropWhile is_space s)))"

definition strip_ascii :: "string \<Rightarrow> string" where
  "strip_ascii s = rev (dropWhile is_space_ascii (rev (dropWhile is_space_ascii s)))"

text \<open>
  The digits of an integer literal: groups of digits separated by single underscores,
  first and last character a digit. The result is the digits without the underscores.
\<close>

fun int_digits :: "string \<Rightarrow> string option" where
  "int_digits [] = None"
| "int_digits [c] = (if is_digit c then Some [c] else None)"
| "int_digits (c # d # cs) =
     (if is_digit c then
        (if d = CHR ''_'' then map_option (\<lambda>r. c # r) (int_digits cs)
         else map_option (\<lambda>r. c # r) (int_digits (d # cs)))
      else None)"

text \<open>\<^verbatim>\<open>int(s)\<close> for a string, base ten: \<open>None\<close> is \<^verbatim>\<open>ValueError\<close>.\<close>

definition int_of_str :: "string \<Rightarrow> int option" where
  "int_of_str s =
     (case strip s of
        [] \<Rightarrow> None
      | c # cs \<Rightarrow>
          if c = CHR ''-'' then map_option (\<lambda>ds. - int (digits_val ds)) (int_digits cs)
          else if c = CHR ''+'' then map_option (\<lambda>ds. int (digits_val ds)) (int_digits cs)
          else map_option (\<lambda>ds. int (digits_val ds)) (int_digits (c # cs)))"

text \<open>\<^verbatim>\<open>int(b)\<close> for bytes, base ten: \<open>None\<close> is \<^verbatim>\<open>ValueError\<close>.\<close>

definition int_of_bytes :: "string \<Rightarrow> int option" where
  "int_of_bytes s =
     (case strip_ascii s of
        [] \<Rightarrow> None
      | c # cs \<Rightarrow>
          if c = CHR ''-'' then map_option (\<lambda>ds. - int (digits_val ds)) (int_digits cs)
          else if c = CHR ''+'' then map_option (\<lambda>ds. int (digits_val ds)) (int_digits cs)
          else map_option (\<lambda>ds. int (digits_val ds)) (int_digits (c # cs)))"

text \<open>Truncation towards zero, as \<^verbatim>\<open>int(x)\<close> does for a finite \<^verbatim>\<open>float\<close> or \<^verbatim>\<open>Decimal\<close>.\<close>

definition trunc_rat :: "rat \<Rightarrow> int" where
  "trunc_rat q = (if q < 0 then - \<lfloor>- q\<rfloor> else \<lfloor>q\<rfloor>)"

text \<open>\<^verbatim>\<open>int(value)\<close>.\<close>

fun py_int :: "pyval \<Rightarrow> error + int" where
  "py_int VNone = Inl (TypeError [])"
| "py_int (VBool b) = Inr (if b then 1 else 0)"
| "py_int (VInt i) = Inr i"
| "py_int (VFloat (Finite q)) = Inr (trunc_rat q)"
| "py_int (VFloat NaN) = Inl (ValueError [])"
| "py_int (VFloat _) = Inl (OverflowError [])"
| "py_int (VStr s) = (case int_of_str s of None \<Rightarrow> Inl (ValueError []) | Some i \<Rightarrow> Inr i)"
| "py_int (VBytes s) = (case int_of_bytes s of None \<Rightarrow> Inl (ValueError []) | Some i \<Rightarrow> Inr i)"
| "py_int (VDecimal (DecFinite neg c e)) =
     Inr (trunc_rat ((if neg then - 1 else 1) * of_nat c * (if e < 0 then 1 / 10 ^ nat (- e) else 10 ^ nat e)))"
| "py_int (VDecimal DecNaN) = Inl (ValueError [])"
| "py_int (VDecimal (DecInfinity _)) = Inl (OverflowError [])"
| "py_int _ = Inl (TypeError [])"

text \<open>\<^verbatim>\<open>str.lower()\<close> on 8-bit characters.\<close>

definition lower_char :: "char \<Rightarrow> char" where
  "lower_char c =
     (let n = (of_char c :: nat)
      in if (65 \<le> n \<and> n \<le> 90) \<or> (192 \<le> n \<and> n \<le> 222 \<and> n \<noteq> 215) then char_of (n + 32) else c)"

definition lower :: "string \<Rightarrow> string" where
  "lower s = map lower_char s"

subsection \<open>Conversions left to the library\<close>

text \<open>
  The conversions between text and binary floating point, the \<^verbatim>\<open>decimal\<close> module,
  Base64 and the \<^verbatim>\<open>repr\<close> of containers and of schema fields are not part of the module. They are the
  fields of a record \<open>pylib\<close>, passed to every function that reaches one of them; every
  theorem below holds for all of them.
\<close>

record pylib =
  float_of_str :: "string \<Rightarrow> pyfloat option"
    \<comment> \<open>\<^verbatim>\<open>float(s)\<close>; \<open>None\<close> is \<^verbatim>\<open>ValueError\<close>\<close>
  float_of_int :: "int \<Rightarrow> pyfloat option"
    \<comment> \<open>\<^verbatim>\<open>float(i)\<close>; \<open>None\<close> is \<^verbatim>\<open>OverflowError\<close>\<close>
  float_of_decimal :: "pydecimal \<Rightarrow> pyfloat option"
    \<comment> \<open>\<^verbatim>\<open>float(d)\<close>; \<open>None\<close> is \<^verbatim>\<open>ValueError\<close>\<close>
  float_repr :: "rat \<Rightarrow> string"
    \<comment> \<open>\<^verbatim>\<open>repr\<close> of a finite float\<close>
  decimal_new :: "pyval \<Rightarrow> error + pydecimal"
    \<comment> \<open>\<^verbatim>\<open>decimal.Decimal(x)\<close> for a string, a float, a list or a tuple\<close>
  decimal_str :: "pydecimal \<Rightarrow> string"
    \<comment> \<open>\<^verbatim>\<open>str(d)\<close>\<close>
  b64decode :: "string \<Rightarrow> string option"
    \<comment> \<open>\<^verbatim>\<open>base64.standard_b64decode\<close>; \<open>None\<close> is \<^verbatim>\<open>binascii.Error\<close>, a \<^verbatim>\<open>ValueError\<close>\<close>
  b64encode :: "string \<Rightarrow> string"
    \<comment> \<open>\<^verbatim>\<open>base64.standard_b64encode\<close>\<close>
  repr_other :: "pyval \<Rightarrow> string"
    \<comment> \<open>\<^verbatim>\<open>str(x)\<close> for bytes, a list, a tuple, a mapping or a \<^verbatim>\<open>relativedelta\<close>\<close>
  field_repr :: "field \<Rightarrow> string"
    \<comment> \<open>\<^verbatim>\<open>repr(field)\<close> of a \<^verbatim>\<open>SchemaField\<close>\<close>
  key_order :: "(string, pyval) fmap \<Rightarrow> string list"
    \<comment> \<open>the keys of a mapping in the order in which iteration lists them\<close>

text \<open>\<^verbatim>\<open>float(value)\<close>.\<close>

fun py_float :: "pylib \<Rightarrow> pyval \<Rightarrow> error + pyfloat" where
  "py_float L VNone = Inl (TypeError [])"
| "py_float L (VBool b) = Inr (Finite (if b then 1 else 0))"
| "py_float L (VInt i) = (case float_of_int L i of None \<Rightarrow> Inl (OverflowError []) | Some f \<Rightarrow> Inr f)"
| "py_float L (VFloat f) = Inr f"
| "py_float L (VStr s) = (case float_of_str L s of None \<Rightarrow> Inl (ValueError []) | Some f \<Rightarrow> Inr f)"
| "py_float L (VBytes s) = (case float_of_str L s of None \<Rightarrow> Inl (ValueError []) | Some f \<Rightarrow> Inr f)"
| "py_float L (VDecimal d) = (case float_of_decimal L d of None \<Rightarrow> Inl (ValueError []) | Some f \<Rightarrow> Inr f)"
| "py_float L _ = Inl (TypeError [])"

text \<open>
  The conversion \<^verbatim>\<open>math.isnan\<close> and \<^verbatim>\<open>math.isinf\<close> apply to their argument: as
  \<^verbatim>\<open>float(value)\<close>, but a string or bytes is a \<^verbatim>\<open>TypeError\<close>.
\<close>

fun math_float :: "pylib \<Rightarrow> pyval \<Rightarrow> error + pyfloat" where
  "math_float L (VStr s) = Inl (TypeError [])"
| "math_float L (VBytes s) = Inl (TypeError [])"
| "math_float L v = py_float L v"

fun isnan :: "pyfloat \<Rightarrow> bool" where
  "isnan NaN = True"
| "isnan _ = False"

fun isinf :: "pyfloat \<Rightarrow> bool" where
  "isinf PosInf = True"
| "isinf NegInf = True"
| "isinf _ = False"

text \<open>\<^verbatim>\<open>str(f)\<close> for a float.\<close>

fun str_float :: "pylib \<Rightarrow> pyfloat \<Rightarrow> string" where
  "str_float L NaN = ''nan''"
| "str_float L PosInf = ''inf''"
| "str_float L NegInf = ''-inf''"
| "str_float L (Finite q) = float_repr L q"

text \<open>\<^verbatim>\<open>decimal.Decimal(value)\<close>.\<close>

fun py_decimal :: "pylib \<Rightarrow> pyval \<Rightarrow> error + pydecimal" where
  "py_decimal L (VBool b) = Inr (DecFinite False (if b then 1 else 0) 0)"
| "py_decimal L (VInt i) = Inr (DecFinite (i < 0) (nat \<bar>i\<bar>) 0)"
| "py_decimal L (VDecimal d) = Inr d"
| "py_decimal L (VStr s) = decimal_new L (VStr s)"
| "py_decimal L (VFloat f) = decimal_new L (VFloat f)"
| "py_decimal L (VList xs) = decimal_new L (VList xs)"
| "py_decimal L (VTuple xs) = decimal_new L (VTuple xs)"
| "py_decimal L _ = Inl (TypeError [])"

text \<open>
  \<^verbatim>\<open>_to_bytes(value)\<close> of \<^verbatim>\<open>google.cloud._helpers\<close> with the \<^verbatim>\<open>ascii\<close> encoding: a
  string is encoded (\<^verbatim>\<open>UnicodeEncodeError\<close>, a \<^verbatim>\<open>ValueError\<close>, beyond ASCII), bytes are
  returned, anything else is a \<^verbatim>\<open>TypeError\<close>.
\<close>

fun to_bytes :: "pyval \<Rightarrow> error + string" where
  "to_bytes (VStr s) = (if \<forall>c \<in> set s. (of_char c :: nat) < 128 then Inr s else Inl (ValueError []))"
| "to_bytes (VBytes b) = Inr b"
| "to_bytes _ = Inl (TypeError [])"

text \<open>
  Iteration (\<^verbatim>\<open>for item in value\<close>, \<^verbatim>\<open>zip\<close>): the items, in order. A mapping
  lists its keys in the order of their insertion, which a finite map does not record: the
  order is the library record's \<open>key_order\<close>.
\<close>

fun py_iter :: "pylib \<Rightarrow> pyval \<Rightarrow> error + pyval list" where
  "py_iter L (VList xs) = Inr xs"
| "py_iter L (VTuple xs) = Inr xs"
| "py_iter L (VStr s) = Inr (map (\<lambda>c. VStr [c]) s)"
| "py_iter L (VBytes s) = Inr (map (\<lambda>c. VInt (of_char c)) s)"
| "py_iter L (VDict m) = Inr (map VStr (key_order L m))"
| "py_iter L _ = Inl (TypeError [])"

text \<open>
  A library record for closed examples whose inputs reach none of its conversions: every
  conversion fails or returns the empty string.
\<close>

definition no_lib :: pylib where
  "no_lib = \<lparr>float_of_str = (\<lambda>_. None), float_of_int = (\<lambda>_. None),
             float_of_decimal = (\<lambda>_. None), float_repr = (\<lambda>_. []),
             decimal_new = (\<lambda>_. Inl (InvalidOperation [])), decimal_str = (\<lambda>_. []),
             b64decode = (\<lambda>_. None), b64encode = (\<lambda>_. []),
             repr_other = (\<lambda>_. []), field_repr = (\<lambda>_. []),
             key_order = (\<lambda>_. [])\<rparr>"

section \<open>Containers: membership, indexing, assignment and deletion by a string key\<close>

fun is_sublist :: "string \<Rightarrow> string \<Rightarrow> bool" where
  "is_sublist k [] = (k = [])"
| "is_sublist k (c # cs) = (take (length k) (c # cs) = k \<or> is_sublist k cs)"

text \<open>\<^verbatim>\<open>key in container\<close> for a string key.\<close>

fun py_contains :: "string \<Rightarrow> pyval \<Rightarrow> error + bool" where
  "py_contains k (VDict m) = Inr (fmlookup m k \<noteq> None)"
| "py_contains k (VStr s) = Inr (is_sublist k s)"
| "py_contains k (VList xs) = Inr (VStr k \<in> set xs)"
| "py_contains k (VTuple xs) = Inr (VStr k \<in> set xs)"
| "py_contains k _ = Inl (TypeError [])"

text \<open>\<^verbatim>\<open>container[key]\<close> for a string key.\<close>

fun py_getitem :: "pyval \<Rightarrow> string \<Rightarrow> error + pyval" where
  "py_getitem (VDict m) k = (case fmlookup m k of None \<Rightarrow> Inl (KeyError k) | Some v \<Rightarrow> Inr v)"
| "py_getitem _ k = Inl (TypeError [])"

text \<open>\<^verbatim>\<open>container[key] = v\<close> for a string key; the result is the container afterwards.\<close>

fun py_setitem :: "pyval \<Rightarrow> string \<Rightarrow> pyval \<Rightarrow> error + pyval" where
  "py_setitem (VDict m) k v = Inr (VDict (fmupd k v m))"
| "py_setitem _ k v = Inl (TypeError [])"

text \<open>\<^verbatim>\<open>del container[key]\<close> for a string key.\<close>

fun py_delitem :: "pyval \<Rightarrow> string \<Rightarrow> error + pyval" where
  "py_delitem (VDict m) k =
     (case fmlookup m k of None \<Rightarrow> Inl (KeyError k) | Some _ \<Rightarrow> Inr (VDict (fmdrop k m)))"
| "py_delitem _ k = Inl (TypeError [])"

section \<open>Dates and times\<close>

text \<open>
  The \<^verbatim>\<open>datetime\<close> module, as its Python implementation computes: the proleptic
  Gregorian calendar, ordinals counted from 1 at 0001-01-01, years 1 to 9999.
\<close>

definition is_leap :: "nat \<Rightarrow> bool" where
  "is_leap y = (y mod 4 = 0 \<and> (y mod 100 \<noteq> 0 \<or> y mod 400 = 0))"

definition DAYS_IN_MONTH :: "nat list" where
  "DAYS_IN_MONTH = [0, 31, 28, 31, 30, 31, 30, 31, 31, 30, 31, 30, 31]"

definition DAYS_BEFORE_MONTH :: "nat list" where
  "DAYS_BEFORE_MONTH = [0, 0, 31, 59, 90, 120, 151, 181, 212, 243, 273, 304, 334]"

definition MAXORDINAL :: nat where
  "MAXORDINAL = 3652059"

definition days_in_month :: "nat \<Rightarrow> nat \<Rightarrow> nat" where
  "days_in_month y m = (if m = 2 \<and> is_leap y then 29 else DAYS_IN_MONTH ! m)"

definition days_before_year :: "nat \<Rightarrow> nat" where
  "days_before_year y = (let p = y - 1 in p * 365 + p div 4 - p div 100 + p div 400)"

definition days_before_month :: "nat \<Rightarrow> nat \<Rightarrow> nat" where
  "days_before_month y m = DAYS_BEFORE_MONTH ! m + (if m > 2 \<and> is_leap y then 1 else 0)"

definition ymd2ord :: "date \<Rightarrow> nat" where
  "ymd2ord d = days_before_year (year d) + days_before_month (year d) (month d) + day d"

definition ord2ymd :: "nat \<Rightarrow> date" where
  "ord2ymd ordinal =
     (let n = ordinal - 1;
          n400 = n div 146097; n = n mod 146097;
          n100 = n div 36524; n = n mod 36524;
          n4 = n div 1461; n = n mod 1461;
          n1 = n div 365; n = n mod 365;
          y = n400 * 400 + 1 + n100 * 100 + n4 * 4 + n1
      in if n1 = 4 \<or> n100 = 4 then \<lparr>year = y - 1, month = 12, day = 31\<rparr>
         else
           let leapyear = (n1 = 3 \<and> (n4 \<noteq> 24 \<or> n100 = 3));
               m = (n + 50) div 32;
               preceding = DAYS_BEFORE_MONTH ! m + (if m > 2 \<and> leapyear then 1 else 0)
           in if preceding > n
              then \<lparr>year = y, month = m - 1,
                    day = n - (preceding - (DAYS_IN_MONTH ! (m - 1)
                                            + (if m - 1 = 2 \<and> leapyear then 1 else 0))) + 1\<rparr>
              else \<lparr>year = y, month = m, day = n - preceding + 1\<rparr>)"

text \<open>What the constructors accept.\<close>

definition valid_date :: "date \<Rightarrow> bool" where
  "valid_date d =
     (1 \<le> year d \<and> year d \<le> 9999 \<and> 1 \<le> month d \<and> month d \<le> 12
      \<and> 1 \<le> day d \<and> day d \<le> days_in_month (year d) (month d))"

fun utcoffset :: "tzinfo \<Rightarrow> int" where
  "utcoffset UTC = 0"
| "utcoffset (FixedOffset off) = off"

definition valid_tz :: "tzinfo option \<Rightarrow> bool" where
  "valid_tz z = (case z of None \<Rightarrow> True | Some tz \<Rightarrow> \<bar>utcoffset tz\<bar> < 86400000000)"

definition valid_time :: "time \<Rightarrow> bool" where
  "valid_time t =
     (hour t < 24 \<and> minute t < 60 \<and> second t < 60 \<and> microsecond t < 1000000 \<and> valid_tz (tzinfo t))"

definition valid_datetime :: "datetime \<Rightarrow> bool" where
  "valid_datetime dt = (valid_date (dt_date dt) \<and> valid_time (dt_timetz dt))"

text \<open>\<^verbatim>\<open>dt.time()\<close>: the time of day, without the zone.\<close>

definition dt_time :: "datetime \<Rightarrow> time" where
  "dt_time dt = (dt_timetz dt)\<lparr>tzinfo := None\<rparr>"

text \<open>\<^verbatim>\<open>dt.replace(tzinfo=z)\<close>.\<close>

definition replace_tzinfo :: "datetime \<Rightarrow> tzinfo option \<Rightarrow> datetime" where
  "replace_tzinfo dt z = dt\<lparr>dt_timetz := (dt_timetz dt)\<lparr>tzinfo := z\<rparr>\<rparr>"

text \<open>
  \<^verbatim>\<open>dt + timedelta(microseconds=us)\<close>: the sum is taken on the ordinal and the time of
  day; a day outside 1 .. \<open>MAXORDINAL\<close> is \<^verbatim>\<open>OverflowError\<close>. The zone is kept.
\<close>

definition dt_add_micros :: "datetime \<Rightarrow> int \<Rightarrow> error + datetime" where
  "dt_add_micros dt us =
     (let t = dt_timetz dt;
          total = int (ymd2ord (dt_date dt)) * 86400000000 + int (hour t) * 3600000000
                  + int (minute t) * 60000000 + int (second t) * 1000000 + int (microsecond t) + us;
          days = total div 86400000000;
          r = total mod 86400000000
      in if 0 < days \<and> days \<le> int MAXORDINAL
         then Inr \<lparr>dt_date = ord2ymd (nat days),
                   dt_timetz = \<lparr>hour = nat (r div 3600000000),
                                minute = nat (r div 60000000 mod 60),
                                second = nat (r div 1000000 mod 60),
                                microsecond = nat (r mod 1000000),
                                tzinfo = tzinfo t\<rparr>\<rparr>
         else Inl (OverflowError []))"

text \<open>\<^verbatim>\<open>dt.astimezone(UTC)\<close> for a datetime that carries a zone.\<close>

definition astimezone_utc :: "datetime \<Rightarrow> tzinfo \<Rightarrow> error + datetime" where
  "astimezone_utc dt tz =
     (case tz of
        UTC \<Rightarrow> Inr dt
      | FixedOffset off \<Rightarrow>
          (case dt_add_micros dt (- off) of
             Inl e \<Rightarrow> Inl e
           | Inr u \<Rightarrow> Inr (replace_tzinfo u (Some UTC))))"

text \<open>\<^verbatim>\<open>_EPOCH\<close> and \<^verbatim>\<open>_datetime_from_microseconds\<close> of \<^verbatim>\<open>google.cloud._helpers\<close>.\<close>

definition EPOCH :: datetime where
  "EPOCH = \<lparr>dt_date = \<lparr>year = 1970, month = 1, day = 1\<rparr>,
            dt_timetz = \<lparr>hour = 0, minute = 0, second = 0, microsecond = 0, tzinfo = Some UTC\<rparr>\<rparr>"

definition datetime_from_microseconds :: "int \<Rightarrow> error + datetime" where
  "datetime_from_microseconds v = dt_add_micros EPOCH v"

subsection \<open>ISO 8601 output\<close>

definition date_isoformat :: "date \<Rightarrow> string" where
  "date_isoformat d = zpad 4 (year d) @ ''-'' @ zpad 2 (month d) @ ''-'' @ zpad 2 (day d)"

text \<open>The time of day with \<^verbatim>\<open>timespec='auto'\<close>: the fraction only when it is not zero.\<close>

definition format_time :: "time \<Rightarrow> string" where
  "format_time t =
     zpad 2 (hour t) @ '':'' @ zpad 2 (minute t) @ '':'' @ zpad 2 (second t)
     @ (if microsecond t \<noteq> 0 then ''.'' @ zpad 6 (microsecond t) else [])"

definition format_offset :: "tzinfo option \<Rightarrow> string" where
  "format_offset z =
     (case z of
        None \<Rightarrow> []
      | Some tz \<Rightarrow>
          let off = utcoffset tz;
              a = nat \<bar>off\<bar>;
              hh = a div 3600000000;
              mm = a mod 3600000000 div 60000000;
              ss = a mod 60000000
          in (if off < 0 then ''-'' else ''+'') @ zpad 2 hh @ '':'' @ zpad 2 mm
             @ (if ss \<noteq> 0
                then '':'' @ zpad 2 (ss div 1000000)
                     @ (if ss mod 1000000 \<noteq> 0 then ''.'' @ zpad 6 (ss mod 1000000) else [])
                else []))"

definition time_isoformat :: "time \<Rightarrow> string" where
  "time_isoformat t = format_time t @ format_offset (tzinfo t)"

definition datetime_isoformat :: "char \<Rightarrow> datetime \<Rightarrow> string" where
  "datetime_isoformat sep dt =
     date_isoformat (dt_date dt) @ [sep] @ format_time (dt_timetz dt)
     @ format_offset (tzinfo (dt_timetz dt))"

subsection \<open>Format strings\<close>

text \<open>
  The directives the module's format strings use. \<^verbatim>\<open>strftime\<close> writes the year, for
  \<^verbatim>\<open>%Y\<close>, without padding, as the C library of Linux does (a year before 1000 has
  fewer than four digits), the other fields with two digits and \<^verbatim>\<open>%f\<close> with six.
\<close>

datatype directive = DirY | Dirm | Dird | DirH | DirM | DirS | Dirf | Lit char

definition RFC3339_MICROS :: "directive list" where
  "RFC3339_MICROS = [DirY, Lit CHR ''-'', Dirm, Lit CHR ''-'', Dird, Lit CHR ''T'',
                     DirH, Lit CHR '':'', DirM, Lit CHR '':'', DirS, Lit CHR ''.'', Dirf, Lit CHR ''Z'']"

definition RFC3339_NO_FRACTION :: "directive list" where
  "RFC3339_NO_FRACTION = [DirY, Lit CHR ''-'', Dirm, Lit CHR ''-'', Dird, Lit CHR ''T'',
                          DirH, Lit CHR '':'', DirM, Lit CHR '':'', DirS]"

definition RFC3339_MICROS_NO_ZULU :: "directive list" where
  "RFC3339_MICROS_NO_ZULU = [DirY, Lit CHR ''-'', Dirm, Lit CHR ''-'', Dird, Lit CHR ''T'',
                             DirH, Lit CHR '':'', DirM, Lit CHR '':'', DirS, Lit CHR ''.'', Dirf]"

definition TIMEONLY_WO_MICROS :: "directive list" where
  "TIMEONLY_WO_MICROS = [DirH, Lit CHR '':'', DirM, Lit CHR '':'', DirS]"

definition TIMEONLY_W_MICROS :: "directive list" where
  "TIMEONLY_W_MICROS = [DirH, Lit CHR '':'', DirM, Lit CHR '':'', DirS, Lit CHR ''.'', Dirf]"

definition ISO8601_DATE :: "directive list" where
  "ISO8601_DATE = [DirY, Lit CHR ''-'', Dirm, Lit CHR ''-'', Dird]"

fun strftime_dir :: "datetime \<Rightarrow> directive \<Rightarrow> string" where
  "strftime_dir dt DirY = digits_of (year (dt_date dt))"
| "strftime_dir dt Dirm = zpad 2 (month (dt_date dt))"
| "strftime_dir dt Dird = zpad 2 (day (dt_date dt))"
| "strftime_dir dt DirH = zpad 2 (hour (dt_timetz dt))"
| "strftime_dir dt DirM = zpad 2 (minute (dt_timetz dt))"
| "strftime_dir dt DirS = zpad 2 (second (dt_timetz dt))"
| "strftime_dir dt Dirf = zpad 6 (microsecond (dt_timetz dt))"
| "strftime_dir dt (Lit c) = [c]"

definition strftime :: "datetime \<Rightarrow> directive list \<Rightarrow> string" where
  "strftime dt fmt = concat (map (strftime_dir dt) fmt)"

subsection \<open>Parsing with a format string\<close>

text \<open>
  \<^verbatim>\<open>datetime.strptime\<close> turns the format into a regular expression, one group of
  alternatives per directive, and matches it at the start of the text, ignoring case;
  text left over after the match is an error. Every directive of the formats above is
  followed by a literal that is no digit or by the end of the format, so the first
  alternative that matches is the one the match keeps. \<open>two p q\<close> and \<open>one p\<close> are the
  alternatives of two characters and of one; they return the characters matched and the
  rest of the text.
\<close>

fun two :: "(char \<Rightarrow> bool) \<Rightarrow> (char \<Rightarrow> bool) \<Rightarrow> string \<Rightarrow> (string \<times> string) option" where
  "two p q (a # b # rest) = (if p a \<and> q b then Some ([a, b], rest) else None)"
| "two p q _ = None"

fun one :: "(char \<Rightarrow> bool) \<Rightarrow> string \<Rightarrow> (string \<times> string) option" where
  "one p (a # rest) = (if p a then Some ([a], rest) else None)"
| "one p _ = None"

fun first_of :: "(string \<Rightarrow> (string \<times> string) option) list \<Rightarrow> string \<Rightarrow> (string \<times> string) option" where
  "first_of [] s = None"
| "first_of (alt # alts) s = (case alt s of Some r \<Rightarrow> Some r | None \<Rightarrow> first_of alts s)"

definition among :: "string \<Rightarrow> char \<Rightarrow> bool" where
  "among cs c = (c \<in> set cs)"

text \<open>The group of each directive: the text it matches and the rest.\<close>

fun match_dir :: "directive \<Rightarrow> string \<Rightarrow> (string \<times> string) option" where
  "match_dir DirY s =
     (case s of
        a # b # c # d # rest \<Rightarrow>
          if is_digit a \<and> is_digit b \<and> is_digit c \<and> is_digit d then Some ([a, b, c, d], rest) else None
      | _ \<Rightarrow> None)"
| "match_dir Dirm s =
     first_of [two (among ''1'') (among ''012''), two (among ''0'') (among ''123456789''),
               one (among ''123456789'')] s"
| "match_dir Dird s =
     first_of [two (among ''3'') (among ''01''), two (among ''12'') is_digit,
               two (among ''0'') (among ''123456789''), one (among ''123456789''),
               two (among '' '') (among ''123456789'')] s"
| "match_dir DirH s =
     first_of [two (among ''2'') (among ''0123''), two (among ''01'') is_digit, one is_digit] s"
| "match_dir DirM s = first_of [two (among ''012345'') is_digit, one is_digit] s"
| "match_dir DirS s =
     first_of [two (among ''6'') (among ''01''), two (among ''012345'') is_digit, one is_digit] s"
| "match_dir Dirf s =
     (let ds = takeWhile is_digit (take 6 s)
      in if ds = [] then None else Some (ds, drop (length ds) s))"
| "match_dir (Lit c) s =
     (case s of a # rest \<Rightarrow> if lower_char a = lower_char c then Some ([a], rest) else None
      | [] \<Rightarrow> None)"

text \<open>
  The fields found, with the defaults of \<^verbatim>\<open>strptime\<close>: 1900-01-01 00:00:00. The value
  of a group is \<^verbatim>\<open>int\<close> of its text (the day may start with a space); the fraction is
  padded with zeros on the right to six digits first.
\<close>

record parsed =
  p_year :: nat
  p_month :: nat
  p_day :: nat
  p_hour :: nat
  p_minute :: nat
  p_second :: nat
  p_fraction :: nat

definition parsed_default :: parsed where
  "parsed_default = \<lparr>p_year = 1900, p_month = 1, p_day = 1, p_hour = 0, p_minute = 0,
                      p_second = 0, p_fraction = 0\<rparr>"

fun store_dir :: "directive \<Rightarrow> string \<Rightarrow> parsed \<Rightarrow> parsed" where
  "store_dir DirY g p = p\<lparr>p_year := digits_val g\<rparr>"
| "store_dir Dirm g p = p\<lparr>p_month := digits_val g\<rparr>"
| "store_dir Dird g p = p\<lparr>p_day := digits_val (filter is_digit g)\<rparr>"
| "store_dir DirH g p = p\<lparr>p_hour := digits_val g\<rparr>"
| "store_dir DirM g p = p\<lparr>p_minute := digits_val g\<rparr>"
| "store_dir DirS g p = p\<lparr>p_second := digits_val g\<rparr>"
| "store_dir Dirf g p = p\<lparr>p_fraction := digits_val (g @ replicate (6 - length g) CHR ''0'')\<rparr>"
| "store_dir (Lit c) g p = p"

fun match_format :: "directive list \<Rightarrow> string \<Rightarrow> parsed \<Rightarrow> parsed option" where
  "match_format [] s p = (if s = [] then Some p else None)"
| "match_format (d # ds) s p =
     (case match_dir d s of
        None \<Rightarrow> None
      | Some (g, rest) \<Rightarrow> match_format ds rest (store_dir d g p))"

text \<open>
  \<^verbatim>\<open>datetime.datetime.strptime(s, fmt)\<close>: a text that does not match, a date that does
  not exist and a second beyond 59 are all \<^verbatim>\<open>ValueError\<close>. The result carries no zone.
\<close>

definition strptime :: "string \<Rightarrow> directive list \<Rightarrow> error + datetime" where
  "strptime s fmt =
     (case match_format fmt s parsed_default of
        None \<Rightarrow> Inl (ValueError [])
      | Some p \<Rightarrow>
          let d = \<lparr>year = p_year p, month = p_month p, day = p_day p\<rparr>;
              t = \<lparr>hour = p_hour p, minute = p_minute p, second = p_second p,
                   microsecond = p_fraction p, tzinfo = None\<rparr>
          in if valid_date d \<and> valid_time t then Inr \<lparr>dt_date = d, dt_timetz = t\<rparr>
             else Inl (ValueError []))"

text \<open>\<^verbatim>\<open>strptime\<close> on any value: only a string is accepted.\<close>

fun py_strptime :: "pyval \<Rightarrow> directive list \<Rightarrow> error + datetime" where
  "py_strptime (VStr s) fmt = strptime s fmt"
| "py_strptime _ fmt = Inl (TypeError [])"

subsection \<open>\<^verbatim>\<open>str\<close> and \<^verbatim>\<open>len\<close>\<close>

text \<open>\<^verbatim>\<open>str(value)\<close>, which is also what \<^verbatim>\<open>'{}'.format(value)\<close> inserts.\<close>

fun py_str :: "pylib \<Rightarrow> pyval \<Rightarrow> string" where
  "py_str L VNone = ''None''"
| "py_str L (VBool b) = (if b then ''True'' else ''False'')"
| "py_str L (VInt i) = str_int i"
| "py_str L (VFloat f) = str_float L f"
| "py_str L (VStr s) = s"
| "py_str L (VDecimal d) = decimal_str L d"
| "py_str L (VDate d) = date_isoformat d"
| "py_str L (VTime t) = time_isoformat t"
| "py_str L (VDatetime dt) = datetime_isoformat CHR '' '' dt"
| "py_str L v = repr_other L v"

fun py_len :: "pyval \<Rightarrow> error + nat" where
  "py_len (VStr s) = Inr (length s)"
| "py_len (VBytes s) = Inr (length s)"
| "py_len (VList xs) = Inr (length xs)"
| "py_len (VTuple xs) = Inr (length xs)"
| "py_len (VDict m) = Inr (fcard (fmdom m))"
| "py_len _ = Inl (TypeError [])"

section \<open>Decoding\<close>

text \<open>
  \<^verbatim>\<open>_not_null(value, field)\<close>. The field may be \<^verbatim>\<open>None\<close>, hence \<open>field option\<close>.
\<close>

definition not_null :: "pyval \<Rightarrow> field option \<Rightarrow> bool" where
  "not_null v fld = (v \<noteq> VNone \<or> (case fld of None \<Rightarrow> False | Some f \<Rightarrow> mode f \<noteq> ''NULLABLE''))"

text \<open>A function that ends without \<^verbatim>\<open>return\<close> returns \<^verbatim>\<open>None\<close>.\<close>

definition int_from_json :: "pyval \<Rightarrow> field option \<Rightarrow> error + pyval" where
  "int_from_json v fld =
     (if not_null v fld then (case py_int v of Inl e \<Rightarrow> Inl e | Inr i \<Rightarrow> Inr (VInt i))
      else Inr VNone)"

subsection \<open>Intervals\<close>

text \<open>
  \<^verbatim>\<open>relativedelta(years=.., months=.., days=.., hours=.., minutes=.., seconds=..,
  microseconds=..)\<close> stores its arguments and then normalises them (\<^verbatim>\<open>_fix\<close>): a field
  whose absolute value is beyond its range carries into the next one, in this order.
\<close>

definition carry :: "int \<Rightarrow> int \<Rightarrow> int \<Rightarrow> int \<times> int" where
  "carry base lo hi =
     (if \<bar>lo\<bar> > base - 1
      then (let s = (if lo < 0 then - 1 else 1)
            in (((lo * s) mod base) * s, hi + ((lo * s) div base) * s))
      else (lo, hi))"

definition relativedelta_fix :: "relativedelta \<Rightarrow> relativedelta" where
  "relativedelta_fix r =
     (let (us, s) = carry 1000000 (microseconds r) (seconds r);
          (s, mi) = carry 60 s (minutes r);
          (mi, h) = carry 60 mi (hours r);
          (h, d) = carry 24 h (days r);
          (mo, y) = carry 12 (months r) (years r)
      in \<lparr>years = y, months = mo, days = d, hours = h, minutes = mi, seconds = s,
          microseconds = us\<rparr>)"

definition relativedelta_new :: "int \<Rightarrow> int \<Rightarrow> int \<Rightarrow> int \<Rightarrow> int \<Rightarrow> int \<Rightarrow> int \<Rightarrow> relativedelta" where
  "relativedelta_new y mo d h mi s us =
     relativedelta_fix \<lparr>years = y, months = mo, days = d, hours = h, minutes = mi, seconds = s,
                        microseconds = us\<rparr>"

text \<open>
  \<^verbatim>\<open>_INTERVAL_PATTERN.match(value)\<close>. The pattern is
  \<^verbatim>\<open>(?P<calendar_sign>-?)(?P<years>\d+)-(?P<months>\d+) (?P<days>-?\d+) \<close>
  \<^verbatim>\<open>(?P<time_sign>-?)(?P<hours>\d+):(?P<minutes>\d+):(?P<seconds>\d+)\.?(?P<fraction>\d*)?$\<close>.
  Every run of digits is followed by a character that is no digit or by the end, so the
  greedy match is the only one. \<^verbatim>\<open>$\<close> matches at the end and before a final newline.
\<close>

record interval_groups =
  g_calendar_sign :: string
  g_years :: string
  g_months :: string
  g_days :: string
  g_time_sign :: string
  g_hours :: string
  g_minutes :: string
  g_seconds :: string
  g_fraction :: string

text \<open>\<^verbatim>\<open>-?\<close>: the sign matched and the rest.\<close>

fun opt_minus :: "string \<Rightarrow> string \<times> string" where
  "opt_minus (c # cs) = (if c = CHR ''-'' then (''-'', cs) else ([], c # cs))"
| "opt_minus [] = ([], [])"

text \<open>\<^verbatim>\<open>\d+\<close>: the digits matched and the rest.\<close>

definition digits1 :: "string \<Rightarrow> (string \<times> string) option" where
  "digits1 s = (let ds = takeWhile is_digit s in if ds = [] then None else Some (ds, dropWhile is_digit s))"

text \<open>A literal character.\<close>

fun expect :: "char \<Rightarrow> string \<Rightarrow> string option" where
  "expect c (a # rest) = (if a = c then Some rest else None)"
| "expect c [] = None"

text \<open>\<^verbatim>\<open>\d+\<close> followed by a literal character.\<close>

definition digits_then :: "char \<Rightarrow> string \<Rightarrow> (string \<times> string) option" where
  "digits_then c s =
     Option.bind (digits1 s) (\<lambda>(ds, rest). map_option (\<lambda>rest'. (ds, rest')) (expect c rest))"

text \<open>The calendar part \<^verbatim>\<open>(?P<calendar_sign>-?)(?P<years>\d+)-(?P<months>\d+) \<close>.\<close>

definition match_calendar :: "string \<Rightarrow> ((string \<times> string \<times> string) \<times> string) option" where
  "match_calendar s0 =
     (let (cs, s1) = opt_minus s0 in
      Option.bind (digits_then CHR ''-'' s1) (\<lambda>(ys, s2).
      Option.bind (digits_then CHR '' '' s2) (\<lambda>(ms, s3). Some ((cs, ys, ms), s3))))"

text \<open>The days \<^verbatim>\<open>(?P<days>-?\d+) \<close>.\<close>

definition match_days :: "string \<Rightarrow> (string \<times> string) option" where
  "match_days s0 =
     (let (dsign, s1) = opt_minus s0 in
      Option.bind (digits_then CHR '' '' s1) (\<lambda>(ds, s2). Some (dsign @ ds, s2)))"

text \<open>The time \<^verbatim>\<open>(?P<time_sign>-?)(?P<hours>\d+):(?P<minutes>\d+):(?P<seconds>\d+)\<close>.\<close>

definition match_time :: "string \<Rightarrow> ((string \<times> string \<times> string \<times> string) \<times> string) option" where
  "match_time s0 =
     (let (ts, s1) = opt_minus s0 in
      Option.bind (digits_then CHR '':'' s1) (\<lambda>(hs, s2).
      Option.bind (digits_then CHR '':'' s2) (\<lambda>(mis, s3).
      Option.bind (digits1 s3) (\<lambda>(ss, s4). Some ((ts, hs, mis, ss), s4)))))"

text \<open>The end \<^verbatim>\<open>\.?(?P<fraction>\d*)?$\<close>: the fraction, if the text ends there.\<close>

definition match_fraction :: "string \<Rightarrow> string option" where
  "match_fraction s0 =
     (let s1 = (case expect CHR ''.'' s0 of None \<Rightarrow> s0 | Some s' \<Rightarrow> s');
          fs = takeWhile is_digit s1;
          s2 = dropWhile is_digit s1
      in if s2 = [] \<or> s2 = [CHR 0x0A] then Some fs else None)"

definition interval_match :: "string \<Rightarrow> interval_groups option" where
  "interval_match s0 =
     Option.bind (match_calendar s0) (\<lambda>((cs, ys, ms), s1).
     Option.bind (match_days s1) (\<lambda>(ds, s2).
     Option.bind (match_time s2) (\<lambda>((ts, hs, mis, ss), s3).
     Option.bind (match_fraction s3) (\<lambda>fs.
       Some \<lparr>g_calendar_sign = cs, g_years = ys, g_months = ms, g_days = ds,
             g_time_sign = ts, g_hours = hs, g_minutes = mis, g_seconds = ss,
             g_fraction = fs\<rparr>))))"

text \<open>\<^verbatim>\<open>s.ljust(n, '0')[:n]\<close>.\<close>

definition ljust0 :: "nat \<Rightarrow> string \<Rightarrow> string" where
  "ljust0 n s = take n (s @ replicate (n - length s) CHR ''0'')"

text \<open>\<^verbatim>\<open>int\<close> of the text of a group: digits, for the days after an optional minus sign.\<close>

definition int_group :: "string \<Rightarrow> int" where
  "int_group g = (case g of c # cs \<Rightarrow> if c = CHR ''-'' then - int (digits_val cs) else int (digits_val g)
                  | [] \<Rightarrow> 0)"

definition interval_from_json :: "pylib \<Rightarrow> pyval \<Rightarrow> field option \<Rightarrow> error + pyval" where
  "interval_from_json L v fld =
     (if \<not> not_null v fld then Inr VNone
      else if v = VNone then Inl (TypeError (''got None for REQUIRED field: '' @ (case fld of None \<Rightarrow> ''None'' | Some f \<Rightarrow> field_repr L f)))
      else (case v of
              VStr s \<Rightarrow>
                (case interval_match s of
                   None \<Rightarrow> Inl (ValueError (''got interval: '' @ [CHR 0x27] @ s @ [CHR 0x27] @ '' with unexpected format''))
                 | Some parsed \<Rightarrow>
                     let calendar_sign = (if g_calendar_sign parsed = ''-'' then - 1 else 1);
                         yrs = calendar_sign * int_group (g_years parsed);
                         mths = calendar_sign * int_group (g_months parsed);
                         dys = int_group (g_days parsed);
                         time_sign = (if g_time_sign parsed = ''-'' then - 1 else 1);
                         hrs = time_sign * int_group (g_hours parsed);
                         mins = time_sign * int_group (g_minutes parsed);
                         secs = time_sign * int_group (g_seconds parsed);
                         fraction = g_fraction parsed;
                         micros = (if fraction \<noteq> [] then time_sign * int_group (ljust0 6 fraction) else 0)
                     in Inr (VInterval (relativedelta_new yrs mths dys hrs mins secs micros)))
            | _ \<Rightarrow> Inl (TypeError [])))"

subsection \<open>The other scalar decoders\<close>

definition float_from_json :: "pylib \<Rightarrow> pyval \<Rightarrow> field option \<Rightarrow> error + pyval" where
  "float_from_json L v fld =
     (if not_null v fld then (case py_float L v of Inl e \<Rightarrow> Inl e | Inr f \<Rightarrow> Inr (VFloat f))
      else Inr VNone)"

definition decimal_from_json :: "pylib \<Rightarrow> pyval \<Rightarrow> field option \<Rightarrow> error + pyval" where
  "decimal_from_json L v fld =
     (if not_null v fld then (case py_decimal L v of Inl e \<Rightarrow> Inl e | Inr d \<Rightarrow> Inr (VDecimal d))
      else Inr VNone)"

text \<open>
  \<^verbatim>\<open>value.lower() in ["t", "true", "1"]\<close>: only strings and bytes have \<^verbatim>\<open>lower\<close>, and
  bytes are equal to no string.
\<close>

definition bool_from_json :: "pyval \<Rightarrow> field option \<Rightarrow> error + pyval" where
  "bool_from_json v fld =
     (if not_null v fld
      then (case v of
              VStr s \<Rightarrow> Inr (VBool (lower s \<in> set [''t'', ''true'', ''1'']))
            | VBytes b \<Rightarrow> Inr (VBool False)
            | _ \<Rightarrow> Inl (AttributeError []))
      else Inr VNone)"

definition string_from_json :: "pyval \<Rightarrow> field option \<Rightarrow> error + pyval" where
  "string_from_json v fld = Inr v"

definition bytes_from_json :: "pylib \<Rightarrow> pyval \<Rightarrow> field option \<Rightarrow> error + pyval" where
  "bytes_from_json L v fld =
     (if not_null v fld
      then (case to_bytes v of
              Inl e \<Rightarrow> Inl e
            | Inr b \<Rightarrow> (case b64decode L b of None \<Rightarrow> Inl (ValueError []) | Some r \<Rightarrow> Inr (VBytes r)))
      else Inr VNone)"

definition timestamp_from_json :: "pyval \<Rightarrow> field option \<Rightarrow> error + pyval" where
  "timestamp_from_json v fld =
     (if not_null v fld
      then (case py_int v of
              Inl e \<Rightarrow> Inl e
            | Inr i \<Rightarrow> (case datetime_from_microseconds i of Inl e \<Rightarrow> Inl e | Inr dt \<Rightarrow> Inr (VDatetime dt)))
      else Inr VNone)"

definition datetime_from_json :: "pyval \<Rightarrow> field option \<Rightarrow> error + pyval" where
  "datetime_from_json v fld =
     (if not_null v fld
      then (case py_contains ''.'' v of
              Inl e \<Rightarrow> Inl e
            | Inr has_dot \<Rightarrow>
                (case py_strptime v (if has_dot then RFC3339_MICROS_NO_ZULU else RFC3339_NO_FRACTION) of
                   Inl e \<Rightarrow> Inl e
                 | Inr dt \<Rightarrow> Inr (VDatetime dt)))
      else Inr VNone)"

text \<open>\<^verbatim>\<open>_date_from_iso8601_date\<close> of \<^verbatim>\<open>google.cloud._helpers\<close> is
  \<^verbatim>\<open>datetime.datetime.strptime(value, "%Y-%m-%d").date()\<close>.\<close>

definition date_from_json :: "pyval \<Rightarrow> field option \<Rightarrow> error + pyval" where
  "date_from_json v fld =
     (if not_null v fld
      then (case py_strptime v ISO8601_DATE of Inl e \<Rightarrow> Inl e | Inr dt \<Rightarrow> Inr (VDate (dt_date dt)))
      else Inr VNone)"

definition time_from_json :: "pylib \<Rightarrow> pyval \<Rightarrow> field option \<Rightarrow> error + pyval" where
  "time_from_json L v fld =
     (if not_null v fld
      then (case py_len v of
              Inl e \<Rightarrow> Inl e
            | Inr n \<Rightarrow>
                if n = 8 then
                  (case py_strptime v TIMEONLY_WO_MICROS of
                     Inl e \<Rightarrow> Inl e | Inr dt \<Rightarrow> Inr (VTime (dt_time dt)))
                else if n = 15 then
                  (case py_strptime v TIMEONLY_W_MICROS of
                     Inl e \<Rightarrow> Inl e | Inr dt \<Rightarrow> Inr (VTime (dt_time dt)))
                else Inl (ValueError (''Unknown time format: '' @ py_str L v)))
      else Inr VNone)"

subsection \<open>The decoder table and records\<close>

text \<open>
  The values of \<^verbatim>\<open>_CELLDATA_FROM_JSON\<close> are functions; \<open>converter\<close> names them.
  \<open>Identity\<close> is the \<^verbatim>\<open>lambda value, _: value\<close> that \<^verbatim>\<open>_field_from_json\<close> falls back
  to.
\<close>

datatype converter =
    IntFromJson | IntervalFromJson | FloatFromJson | DecimalFromJson | BoolFromJson
  | StringFromJson | BytesFromJson | TimestampFromJson | DatetimeFromJson | DateFromJson
  | TimeFromJson | RecordFromJson | Identity

definition CELLDATA_FROM_JSON :: "(string \<times> converter) list" where
  "CELLDATA_FROM_JSON =
     [(''INTEGER'', IntFromJson),
      (''INT64'', IntFromJson),
      (''INTERVAL'', IntervalFromJson),
      (''FLOAT'', FloatFromJson),
      (''FLOAT64'', FloatFromJson),
      (''NUMERIC'', DecimalFromJson),
      (''BIGNUMERIC'', DecimalFromJson),
      (''BOOLEAN'', BoolFromJson),
      (''BOOL'', BoolFromJson),
      (''STRING'', StringFromJson),
      (''GEOGRAPHY'', StringFromJson),
      (''BYTES'', BytesFromJson),
      (''TIMESTAMP'', TimestampFromJson),
      (''DATETIME'', DatetimeFromJson),
      (''DATE'', DateFromJson),
      (''TIME'', TimeFromJson),
      (''RECORD'', RecordFromJson)]"

text \<open>
  \<open>convert L c v fld\<close> is the call \<^verbatim>\<open>converter(value, field)\<close>; for \<open>RecordFromJson\<close> it
  is the body of \<^verbatim>\<open>_record_from_json\<close>. \<open>record_loop\<close> is its loop over
  \<^verbatim>\<open>zip(field.fields, value["f"])\<close>, with the record built so far, and \<open>convert_items\<close>
  the comprehension \<^verbatim>\<open>[converter(item["v"], subfield) for item in cell["v"]]\<close>.
\<close>

function convert :: "pylib \<Rightarrow> converter \<Rightarrow> pyval \<Rightarrow> field option \<Rightarrow> error + pyval"
  and convert_items :: "pylib \<Rightarrow> converter \<Rightarrow> pyval list \<Rightarrow> field \<Rightarrow> error + pyval list"
  and record_loop :: "pylib \<Rightarrow> (field \<times> pyval) list \<Rightarrow> (string, pyval) fmap \<Rightarrow> error + pyval"
where
  "convert L IntFromJson v fld = int_from_json v fld"
| "convert L IntervalFromJson v fld = interval_from_json L v fld"
| "convert L FloatFromJson v fld = float_from_json L v fld"
| "convert L DecimalFromJson v fld = decimal_from_json L v fld"
| "convert L BoolFromJson v fld = bool_from_json v fld"
| "convert L StringFromJson v fld = string_from_json v fld"
| "convert L BytesFromJson v fld = bytes_from_json L v fld"
| "convert L TimestampFromJson v fld = timestamp_from_json v fld"
| "convert L DatetimeFromJson v fld = datetime_from_json v fld"
| "convert L DateFromJson v fld = date_from_json v fld"
| "convert L TimeFromJson v fld = time_from_json L v fld"
| "convert L Identity v fld = Inr v"
| "convert L RecordFromJson v fld =
     (if not_null v fld
      then (case fld of
              None \<Rightarrow> Inl (AttributeError [])
            | Some f \<Rightarrow>
                (case py_getitem v ''f'' of
                   Inl e \<Rightarrow> Inl e
                 | Inr cells \<Rightarrow>
                     (case py_iter L cells of
                        Inl e \<Rightarrow> Inl e
                      | Inr cs \<Rightarrow> record_loop L (zip (field.fields f) cs) fmempty)))
      else Inr VNone)"
| "convert_items L c [] subfield = Inr []"
| "convert_items L c (item # items) subfield =
     (case py_getitem item ''v'' of
        Inl e \<Rightarrow> Inl e
      | Inr iv \<Rightarrow>
          (case convert L c iv (Some subfield) of
             Inl e \<Rightarrow> Inl e
           | Inr x \<Rightarrow>
               (case convert_items L c items subfield of
                  Inl e \<Rightarrow> Inl e
                | Inr xs \<Rightarrow> Inr (x # xs))))"
| "record_loop L [] record = Inr (VDict record)"
| "record_loop L ((subfield, cell) # rest) record =
     (case map_of CELLDATA_FROM_JSON (field_type subfield) of
        None \<Rightarrow> Inl (KeyError (field_type subfield))
      | Some c \<Rightarrow>
          (case py_getitem cell ''v'' of
             Inl e \<Rightarrow> Inl e
           | Inr cv \<Rightarrow>
               (case (if mode subfield = ''REPEATED''
                      then (case py_iter L cv of
                              Inl e \<Rightarrow> Inl e
                            | Inr items \<Rightarrow>
                                (case convert_items L c items subfield of
                                   Inl e \<Rightarrow> Inl e
                                 | Inr xs \<Rightarrow> Inr (VList xs)))
                      else convert L c cv (Some subfield)) of
                  Inl e \<Rightarrow> Inl e
                | Inr x \<Rightarrow> record_loop L rest (fmupd (name subfield) x record))))"
  by pat_completeness auto

text \<open>
  The recursion descends the schema: a record's subfields are smaller than the record.
  \<open>fields_weight\<close> measures the fields still to be processed by a loop.
\<close>

definition fields_weight :: "(field \<times> pyval) list \<Rightarrow> nat" where
  "fields_weight ps = sum_list (map (\<lambda>p. size (fst p) + 1) ps)"

termination convert
proof (relation "inv_image (less_than <*lex*> less_than)
    (\<lambda>x. case x of
       Inl (L, c, v, fld) \<Rightarrow> (2 * (case fld of None \<Rightarrow> 0 | Some f \<Rightarrow> size f), 0)
     | Inr (Inl (L, c, items, sf)) \<Rightarrow> (2 * size sf + 1, length items)
     | Inr (Inr (L, ps, r)) \<Rightarrow> (2 * fields_weight ps, 0))", goal_cases)
  case 1
  show ?case by (intro wf_inv_image wf_lex_prod wf_less_than)
next
  case (2 L v fld f cells cs)
  have zip_le: "fields_weight (zip fs xs) \<le> size_list size fs" for fs :: "field list" and xs
  proof (induction fs arbitrary: xs)
    case Nil
    then show ?case by (simp add: fields_weight_def)
  next
    case (Cons g gs)
    show ?case
    proof (cases xs)
      case Nil
      then show ?thesis by (simp add: fields_weight_def)
    next
      case (Cons y ys)
      with Cons.IH[of ys] show ?thesis by (simp add: fields_weight_def)
    qed
  qed
  have "fields_weight (zip (field.fields f) cs) < size f"
    using zip_le[of "field.fields f" cs] by (cases f) simp
  with 2 show ?case by simp
qed (simp_all add: fields_weight_def)

text \<open>\<^verbatim>\<open>_field_from_json(resource, field)\<close>.\<close>

definition field_from_json :: "pylib \<Rightarrow> pyval \<Rightarrow> field \<Rightarrow> error + pyval" where
  "field_from_json L resource f =
     (let converter = (case map_of CELLDATA_FROM_JSON (field_type f) of
                         None \<Rightarrow> Identity | Some c \<Rightarrow> c)
      in if mode f = ''REPEATED''
         then (case py_iter L resource of
                 Inl e \<Rightarrow> Inl e
               | Inr items \<Rightarrow>
                   (case convert_items L converter items f of
                      Inl e \<Rightarrow> Inl e
                    | Inr xs \<Rightarrow> Inr (VList xs)))
         else convert L converter resource (Some f))"

text \<open>A non-empty string of decimal digits, and the text and the factor of a sign.\<close>

definition digit_string :: "string \<Rightarrow> bool" where
  "digit_string s = (s \<noteq> [] \<and> list_all is_digit s)"

definition sign_text :: "bool \<Rightarrow> string" where
  "sign_text neg = (if neg then ''-'' else [])"

definition sign_factor :: "bool \<Rightarrow> int" where
  "sign_factor neg = (if neg then - 1 else 1)"

section \<open>Encoding\<close>

subsection \<open>Scalar encoders\<close>

text \<open>\<^verbatim>\<open>bool\<close> is a subclass of \<^verbatim>\<open>int\<close>, so \<^verbatim>\<open>isinstance(value, int)\<close> holds for both.\<close>

fun int_to_json :: "pylib \<Rightarrow> pyval \<Rightarrow> pyval" where
  "int_to_json L (VInt i) = VStr (py_str L (VInt i))"
| "int_to_json L (VBool b) = VStr (py_str L (VBool b))"
| "int_to_json L v = v"

definition float_to_json :: "pylib \<Rightarrow> pyval \<Rightarrow> error + pyval" where
  "float_to_json L v0 =
     (if v0 = VNone then Inr VNone
      else
        (case (case v0 of
                 VStr s \<Rightarrow> (case py_float L v0 of Inl e \<Rightarrow> Inl e | Inr f \<Rightarrow> Inr (VFloat f))
               | _ \<Rightarrow> Inr v0) of
           Inl e \<Rightarrow> Inl e
         | Inr v \<Rightarrow>
             (case math_float L v of
                Inl e \<Rightarrow> Inl e
              | Inr f \<Rightarrow>
                  if isnan f \<or> isinf f then Inr (VStr (py_str L v))
                  else (case py_float L v of Inl e \<Rightarrow> Inl e | Inr g \<Rightarrow> Inr (VFloat g)))))"

fun decimal_to_json :: "pylib \<Rightarrow> pyval \<Rightarrow> pyval" where
  "decimal_to_json L (VDecimal d) = VStr (py_str L (VDecimal d))"
| "decimal_to_json L v = v"

fun bool_to_json :: "pyval \<Rightarrow> pyval" where
  "bool_to_json (VBool b) = VStr (if b then ''true'' else ''false'')"
| "bool_to_json v = v"

fun bytes_to_json :: "pylib \<Rightarrow> pyval \<Rightarrow> pyval" where
  "bytes_to_json L (VBytes b) = VStr (b64encode L b)"
| "bytes_to_json L v = v"

text \<open>
  \<^verbatim>\<open>_timestamp_to_json_parameter\<close>. \<^verbatim>\<open>value.tzinfo not in (None, UTC)\<close> sends every
  other zone through \<^verbatim>\<open>value.replace(tzinfo=None) - value.utcoffset()\<close>, which can leave
  the range of \<^verbatim>\<open>datetime\<close>. \<open>param_text\<close> is the text
  \<^verbatim>\<open>"%s %s+00:00" % (value.date().isoformat(), value.time().isoformat())\<close>.
\<close>

definition param_text :: "datetime \<Rightarrow> string" where
  "param_text u = date_isoformat (dt_date u) @ '' '' @ time_isoformat (dt_time u) @ ''+00:00''"

definition timestamp_to_json_parameter :: "pyval \<Rightarrow> error + pyval" where
  "timestamp_to_json_parameter v =
     (case v of
        VDatetime dt \<Rightarrow>
          (case (if tzinfo (dt_timetz dt) \<notin> {None, Some UTC}
                 then dt_add_micros (replace_tzinfo dt None)
                        (- utcoffset (the (tzinfo (dt_timetz dt))))
                 else Inr dt) of
             Inl e \<Rightarrow> Inl e
           | Inr u \<Rightarrow>
               Inr (VStr (param_text u)))
      | _ \<Rightarrow> Inr v)"

definition timestamp_to_json_row :: "pyval \<Rightarrow> error + pyval" where
  "timestamp_to_json_row v =
     (case v of
        VDatetime dt \<Rightarrow>
          (case (case tzinfo (dt_timetz dt) of
                   None \<Rightarrow> Inr dt
                 | Some tz \<Rightarrow> astimezone_utc dt tz) of
             Inl e \<Rightarrow> Inl e
           | Inr u \<Rightarrow> Inr (VStr (strftime u RFC3339_MICROS)))
      | _ \<Rightarrow> Inr v)"

definition datetime_to_json :: "pyval \<Rightarrow> error + pyval" where
  "datetime_to_json v =
     (case v of
        VDatetime dt \<Rightarrow>
          (case (case tzinfo (dt_timetz dt) of
                   None \<Rightarrow> Inr dt
                 | Some tz \<Rightarrow> astimezone_utc dt tz) of
             Inl e \<Rightarrow> Inl e
           | Inr u \<Rightarrow> Inr (VStr (strftime u RFC3339_MICROS_NO_ZULU)))
      | _ \<Rightarrow> Inr v)"

text \<open>\<^verbatim>\<open>datetime.datetime\<close> is a subclass of \<^verbatim>\<open>datetime.date\<close>.\<close>

fun date_to_json :: "pyval \<Rightarrow> pyval" where
  "date_to_json (VDate d) = VStr (date_isoformat d)"
| "date_to_json (VDatetime dt) = VStr (datetime_isoformat CHR ''T'' dt)"
| "date_to_json v = v"

fun time_to_json :: "pyval \<Rightarrow> pyval" where
  "time_to_json (VTime t) = VStr (time_isoformat t)"
| "time_to_json v = v"

subsection \<open>The encoder table\<close>

datatype encoder =
    IntToJson | FloatToJson | DecimalToJson | BoolToJson | BytesToJson
  | TimestampToJsonRow | DatetimeToJson | DateToJson | TimeToJson

definition SCALAR_VALUE_TO_JSON_ROW :: "(string \<times> encoder) list" where
  "SCALAR_VALUE_TO_JSON_ROW =
     [(''INTEGER'', IntToJson),
      (''INT64'', IntToJson),
      (''FLOAT'', FloatToJson),
      (''FLOAT64'', FloatToJson),
      (''NUMERIC'', DecimalToJson),
      (''BIGNUMERIC'', DecimalToJson),
      (''BOOLEAN'', BoolToJson),
      (''BOOL'', BoolToJson),
      (''BYTES'', BytesToJson),
      (''TIMESTAMP'', TimestampToJsonRow),
      (''DATETIME'', DatetimeToJson),
      (''DATE'', DateToJson),
      (''TIME'', TimeToJson),
      (''DECIMAL'', DecimalToJson),
      (''BIGDECIMAL'', DecimalToJson)]"

text \<open>The call \<^verbatim>\<open>converter(row_value)\<close>.\<close>

fun encode :: "pylib \<Rightarrow> encoder \<Rightarrow> pyval \<Rightarrow> error + pyval" where
  "encode L IntToJson v = Inr (int_to_json L v)"
| "encode L FloatToJson v = float_to_json L v"
| "encode L DecimalToJson v = Inr (decimal_to_json L v)"
| "encode L BoolToJson v = Inr (bool_to_json v)"
| "encode L BytesToJson v = Inr (bytes_to_json L v)"
| "encode L TimestampToJsonRow v = timestamp_to_json_row v"
| "encode L DatetimeToJson v = datetime_to_json v"
| "encode L DateToJson v = Inr (date_to_json v)"
| "encode L TimeToJson v = Inr (time_to_json v)"

definition scalar_field_to_json :: "pylib \<Rightarrow> field \<Rightarrow> pyval \<Rightarrow> error + pyval" where
  "scalar_field_to_json L f row_value =
     (case map_of SCALAR_VALUE_TO_JSON_ROW (field_type f) of
        None \<Rightarrow> Inr row_value
      | Some converter \<Rightarrow> encode L converter row_value)"

subsection \<open>Fields and records\<close>

text \<open>
  The mapping keys of \<^verbatim>\<open>row_value\<close> that are not subfield names, with the string form
  of their values, the keys whose value is \<^verbatim>\<open>None\<close> left out: what the loop over
  \<^verbatim>\<open>not_processed\<close> adds to the record. The loop runs over a set, in no fixed order;
  the keys are distinct, so the order does not show in the result.
\<close>

definition unknown_fields :: "pylib \<Rightarrow> string list \<Rightarrow> (string, pyval) fmap \<Rightarrow> (string, pyval) fmap" where
  "unknown_fields L processed_fields m =
     fmmap (\<lambda>v. VStr (py_str L v))
       (fmfilter (\<lambda>k. k \<notin> set processed_fields \<and> fmlookup m k \<noteq> Some VNone) m)"

definition length_mismatch :: "nat \<Rightarrow> nat \<Rightarrow> string" where
  "length_mismatch n k =
     ''The number of row fields ('' @ str_int (int n) @ '') does not match schema length (''
     @ str_int (int k) @ '').''"

text \<open>\<^verbatim>\<open>isinstance(row_value, dict)\<close>, with the mapping.\<close>

fun dict_of :: "pyval \<Rightarrow> (string, pyval) fmap option" where
  "dict_of (VDict m) = Some m"
| "dict_of _ = None"

text \<open>
  \<open>field_to_json\<close>, \<open>single_field_to_json\<close> and \<open>record_field_to_json\<close> are the
  functions of those names; \<open>repeated_loop\<close> is the loop of
  \<^verbatim>\<open>_repeated_field_to_json\<close> over the items, and \<open>subfields_loop\<close> the loop of
  \<^verbatim>\<open>_record_field_to_json\<close> over the subfields, each paired with its \<^verbatim>\<open>subvalue\<close>
  (\<^verbatim>\<open>row_value.get(subname)\<close> for a mapping, \<^verbatim>\<open>row_value[subindex]\<close> otherwise), with
  the record built so far.
\<close>

function field_to_json :: "pylib \<Rightarrow> field \<Rightarrow> pyval \<Rightarrow> error + pyval"
  and repeated_loop :: "pylib \<Rightarrow> field \<Rightarrow> pyval list \<Rightarrow> error + pyval list"
  and single_field_to_json :: "pylib \<Rightarrow> field \<Rightarrow> pyval \<Rightarrow> error + pyval"
  and record_field_to_json :: "pylib \<Rightarrow> field list \<Rightarrow> pyval \<Rightarrow> error + pyval"
  and subfields_loop :: "pylib \<Rightarrow> (field \<times> pyval) list \<Rightarrow> (string, pyval) fmap
                          \<Rightarrow> error + (string, pyval) fmap"
where
  "field_to_json L f row_value =
     (if row_value = VNone then Inr VNone
      else if mode f = ''REPEATED''
      then (case py_iter L row_value of
              Inl e \<Rightarrow> Inl e
            | Inr items \<Rightarrow>
                (case repeated_loop L f items of Inl e \<Rightarrow> Inl e | Inr vals \<Rightarrow> Inr (VList vals)))
      else single_field_to_json L f row_value)"
| "repeated_loop L f [] = Inr []"
| "repeated_loop L f (item # items) =
     (case single_field_to_json L f item of
        Inl e \<Rightarrow> Inl e
      | Inr x \<Rightarrow> (case repeated_loop L f items of Inl e \<Rightarrow> Inl e | Inr xs \<Rightarrow> Inr (x # xs)))"
| "single_field_to_json L f row_value =
     (if row_value = VNone then Inr VNone
      else if field_type f = ''RECORD'' then record_field_to_json L (field.fields f) row_value
      else scalar_field_to_json L f row_value)"
| "record_field_to_json L flds row_value =
     (case dict_of row_value of
        Some m \<Rightarrow>
          (case subfields_loop L
                  (map (\<lambda>subfield. (subfield, case fmlookup m (name subfield) of
                                                  None \<Rightarrow> VNone | Some subvalue \<Rightarrow> subvalue)) flds)
                  fmempty of
             Inl e \<Rightarrow> Inl e
           | Inr record \<Rightarrow> Inr (VDict (record ++\<^sub>f unknown_fields L (map name flds) m)))
      | None \<Rightarrow>
          (case py_len row_value of
             Inl e \<Rightarrow> Inl e
           | Inr n \<Rightarrow>
               if n \<noteq> length flds then Inl (ValueError (length_mismatch n (length flds)))
               else (case py_iter L row_value of
                       Inl e \<Rightarrow> Inl e
                     | Inr items \<Rightarrow>
                         (case subfields_loop L (zip flds items) fmempty of
                            Inl e \<Rightarrow> Inl e
                          | Inr record \<Rightarrow> Inr (VDict record)))))"
| "subfields_loop L [] record = Inr record"
| "subfields_loop L ((subfield, subvalue) # rest) record =
     (if subvalue \<noteq> VNone
      then (case field_to_json L subfield subvalue of
              Inl e \<Rightarrow> Inl e
            | Inr x \<Rightarrow> subfields_loop L rest (fmupd (name subfield) x record))
      else subfields_loop L rest record)"
  by pat_completeness auto

termination field_to_json
proof (relation "inv_image (less_than <*lex*> less_than)
    (\<lambda>x. case x of
       Inl (Inl (L, f, v)) \<Rightarrow> (4 * size f + 3, 0)
     | Inl (Inr (L, f, items)) \<Rightarrow> (4 * size f + 2, length items)
     | Inr (Inl (L, f, v)) \<Rightarrow> (4 * size f + 1, 0)
     | Inr (Inr (Inl (L, flds, v))) \<Rightarrow> (4 * size_list size flds + 4, 0)
     | Inr (Inr (Inr (L, ps, r))) \<Rightarrow> (4 * fields_weight ps + 3, 0))", goal_cases)
  case 1
  show ?case by (intro wf_inv_image wf_lex_prod wf_less_than)
next
  case (6 L f row_value)
  then show ?case by (cases f) simp
next
  case (8 L flds row_value m)
  have "fields_weight (map (\<lambda>sf. (sf, g sf)) fs) = size_list size fs" for g :: "field \<Rightarrow> pyval" and fs
    by (induction fs) (simp_all add: fields_weight_def)
  then show ?case by simp
next
  case (7 L flds row_value n items)
  have zip_le: "fields_weight (zip fs xs) \<le> size_list size fs" for fs :: "field list" and xs
  proof (induction fs arbitrary: xs)
    case Nil
    then show ?case by (simp add: fields_weight_def)
  next
    case (Cons g gs)
    show ?case
    proof (cases xs)
      case Nil
      then show ?thesis by (simp add: fields_weight_def)
    next
      case (Cons y ys)
      with Cons.IH[of ys] show ?thesis by (simp add: fields_weight_def)
    qed
  qed
  from zip_le[of flds items] show ?case by simp
qed (simp_all add: fields_weight_def)

subsection \<open>Encoding followed by decoding\<close>

text \<open>
  \<open>round_trip L ty f v\<close>: the value \<open>v\<close> encoded by the row-form encoder registered for
  the type \<open>ty\<close>, then decoded by the decoder registered for \<open>ty\<close> with the field \<open>f\<close>.
\<close>

definition round_trip :: "pylib \<Rightarrow> string \<Rightarrow> field \<Rightarrow> pyval \<Rightarrow> error + pyval" where
  "round_trip L ty f v =
     (case map_of SCALAR_VALUE_TO_JSON_ROW ty of
        None \<Rightarrow> Inl (KeyError ty)
      | Some e \<Rightarrow>
          (case map_of CELLDATA_FROM_JSON ty of
             None \<Rightarrow> Inl (KeyError ty)
           | Some c \<Rightarrow>
               (case encode L e v of
                  Inl err \<Rightarrow> Inl err
                | Inr w \<Rightarrow> convert L c w (Some f))))"

subsection \<open>The form of an encoded timestamp\<close>

text \<open>
  \<open>has_form p s\<close>: the text \<open>s\<close> has the form \<open>p\<close>, where the letter \<open>d\<close> in \<open>p\<close> stands
  for one decimal digit and every other character for itself. The two forms are the one
  the spec gives for a query-parameter TIMESTAMP, \<^verbatim>\<open>YYYY-MM-DD HH:MM:SS.ffffff+00:00\<close>,
  and the same without the fraction.
\<close>

fun has_form :: "string \<Rightarrow> string \<Rightarrow> bool" where
  "has_form [] [] = True"
| "has_form (p # ps) (c # cs) = ((if p = CHR ''d'' then is_digit c else c = p) \<and> has_form ps cs)"
| "has_form _ _ = False"

definition PARAM_FORM :: string where
  "PARAM_FORM = ''dddd-dd-dd dd:dd:dd.dddddd+00:00''"

definition PARAM_FORM_NO_FRACTION :: string where
  "PARAM_FORM_NO_FRACTION = ''dddd-dd-dd dd:dd:dd+00:00''"

section \<open>Nested properties\<close>

text \<open>
  The \<^verbatim>\<open>keys\<close> argument: a single string, or a sequence of string keys.
  \<^verbatim>\<open>_get_sub_prop\<close> turns a single string into a one-element path;
  \<^verbatim>\<open>_del_sub_prop\<close> does not, and iterates a string character by character.
\<close>

datatype keys = SingleKey string | KeyPath "string list"

fun get_loop :: "pyval \<Rightarrow> string list \<Rightarrow> pyval \<Rightarrow> error + pyval" where
  "get_loop sub_val [] dflt = Inr sub_val"
| "get_loop sub_val (key # rest) dflt =
     (case py_contains key sub_val of
        Inl e \<Rightarrow> Inl e
      | Inr present \<Rightarrow>
          if \<not> present then Inr dflt
          else (case py_getitem sub_val key of
                  Inl e \<Rightarrow> Inl e
                | Inr v \<Rightarrow> get_loop v rest dflt))"

fun get_sub_prop :: "pyval \<Rightarrow> keys \<Rightarrow> pyval \<Rightarrow> error + pyval" where
  "get_sub_prop container (SingleKey k) dflt = get_loop container [k] dflt"
| "get_sub_prop container (KeyPath ks) dflt = get_loop container ks dflt"

text \<open>
  \<^verbatim>\<open>_del_sub_prop\<close> mutates the container in place. The model returns the container as
  it is afterwards: values are trees, and the change made to a nested mapping is written
  back into its parent. (An exception can only be raised before the first mutation, so
  \<open>Inl\<close> loses no state.) \<open>del_loop sub_val keys\<close> is the loop over \<^verbatim>\<open>keys[:-1]\<close>
  followed by the final test and deletion, for a non-empty path.
\<close>

fun del_loop :: "pyval \<Rightarrow> string list \<Rightarrow> error + pyval" where
  "del_loop sub_val [] = Inl (IndexError [])"
| "del_loop sub_val [last_key] =
     (case py_contains last_key sub_val of
        Inl e \<Rightarrow> Inl e
      | Inr present \<Rightarrow> if present then py_delitem sub_val last_key else Inr sub_val)"
| "del_loop sub_val (key # rest) =
     (case py_contains key sub_val of
        Inl e \<Rightarrow> Inl e
      | Inr present \<Rightarrow>
          (case (if \<not> present then py_setitem sub_val key (VDict fmempty) else Inr sub_val) of
             Inl e \<Rightarrow> Inl e
           | Inr sub_val1 \<Rightarrow>
               (case py_getitem sub_val1 key of
                  Inl e \<Rightarrow> Inl e
                | Inr child \<Rightarrow>
                    (case del_loop child rest of
                       Inl e \<Rightarrow> Inl e
                     | Inr child' \<Rightarrow> py_setitem sub_val1 key child'))))"

fun del_sub_prop :: "pyval \<Rightarrow> keys \<Rightarrow> error + pyval" where
  "del_sub_prop container (KeyPath ks) = del_loop container ks"
| "del_sub_prop container (SingleKey s) = del_loop container (map (\<lambda>c. [c]) s)"

text \<open>
  What the walk of \<^verbatim>\<open>_del_sub_prop\<close> stores under a key that is absent, when the keys
  \<open>rest\<close> follow it: an empty mapping when only the final key follows, and otherwise a
  mapping that holds, under the next key, what the walk stores there in turn.
\<close>

fun created :: "string list \<Rightarrow> (string, pyval) fmap" where
  "created [] = fmempty"
| "created [last_key] = fmempty"
| "created (key # rest) = fmupd key (VDict (created rest)) fmempty"

section \<open>Decimal numerals\<close>

lemma below_ten: "digit < 10 \<Longrightarrow> digit \<in> {0, 1, 2, 3, 4, 5, 6, 7, 8, 9::nat}"
  by auto

lemma digit_char_is_digit: "n < 10 \<Longrightarrow> is_digit (digit_char n)"
  by (drule below_ten) (auto simp: is_digit_def digit_char_def)

lemma digit_val_digit_char: "n < 10 \<Longrightarrow> digit_val (digit_char n) = n"
  by (drule below_ten) (auto simp: digit_val_def digit_char_def)

lemma digits_val_snoc: "digits_val (xs @ [c]) = 10 * digits_val xs + digit_val c"
  by (simp add: digits_val_def)

lemma digits_of_digits: "list_all is_digit (digits_of n)"
proof (induction n rule: digits_of.induct)
  case (1 n)
  show ?case
  proof (cases "n < 10")
    case True
    then show ?thesis by (subst digits_of.simps) (simp add: digit_char_is_digit)
  next
    case False
    with 1 show ?thesis by (subst digits_of.simps) (simp add: digit_char_is_digit)
  qed
qed

lemma digits_of_nonempty: "digits_of n \<noteq> []"
  by (subst digits_of.simps) simp

lemma digits_val_digits_of: "digits_val (digits_of n) = n"
proof (induction n rule: digits_of.induct)
  case (1 n)
  show ?case
  proof (cases "n < 10")
    case True
    then show ?thesis
      by (subst digits_of.simps) (simp add: digits_val_def digit_val_digit_char)
  next
    case False
    with 1 show ?thesis
      by (subst digits_of.simps) (simp add: digits_val_snoc digit_val_digit_char)
  qed
qed

lemma length_digits_of: "0 < w \<Longrightarrow> n < 10 ^ w \<Longrightarrow> length (digits_of n) \<le> w"
proof (induction n arbitrary: w rule: digits_of.induct)
  case (1 n)
  show ?case
  proof (cases "n < 10")
    case True
    with 1(2) show ?thesis by (subst digits_of.simps) simp
  next
    case False
    from 1(2) obtain v where w: "w = Suc v" by (cases w) auto
    from False 1(3) w have "v \<noteq> 0" by (cases "v = 0") simp_all
    with w have v: "w = Suc v" "0 < v" by auto
    from 1(3) v have "n < 10 ^ v * 10" by simp
    then have "n div 10 < 10 ^ v" by (rule less_mult_imp_div_less)
    from 1(1)[OF False v(2) this] v False show ?thesis by (subst digits_of.simps) simp
  qed
qed

lemma digits_val_zeros: "digits_val (replicate k CHR ''0'' @ xs) = digits_val xs"
proof -
  have "foldl (\<lambda>a c. 10 * a + digit_val c) 0 (replicate k CHR ''0'') = 0"
    by (induction k) (simp_all add: digit_val_def)
  then show ?thesis by (simp add: digits_val_def)
qed

lemma digits_val_zpad: "digits_val (zpad w n) = n"
  by (simp add: zpad_def digits_val_zeros digits_val_digits_of)

lemma zpad_digits: "list_all is_digit (zpad w n)"
proof -
  have z: "is_digit CHR ''0''" by (simp add: is_digit_def)
  with digits_of_digits [of n] show ?thesis by (auto simp: zpad_def list_all_iff)
qed

lemma length_zpad: "0 < w \<Longrightarrow> n < 10 ^ w \<Longrightarrow> length (zpad w n) = w"
  using length_digits_of [of w n] by (simp add: zpad_def)


text \<open>The definitions that evaluate the text of a concrete date or time.\<close>

lemmas text_eval = zpad_def digits_of.simps digit_char_def date_isoformat_def format_time_def
  time_isoformat_def format_offset_def dt_time_def param_text_def


section \<open>Decoding\<close>

lemma convert_items_identity:
  "map (\<lambda>item. py_getitem item ''v'') items = map Inr vs
   \<Longrightarrow> convert_items L Identity items f = Inr vs"
  by (induction items arbitrary: vs) auto

text \<open>
  C10: when the type of the field is no key of \<^verbatim>\<open>_CELLDATA_FROM_JSON\<close>,
  \<^verbatim>\<open>_field_from_json\<close> returns the resource as it is for a field that is not REPEATED, and
  for a REPEATED field the list of the values \<^verbatim>\<open>item["v"]\<close> of the items, as they are.
\<close>

theorem field_from_json_unregistered:
  "map_of CELLDATA_FROM_JSON (field_type f) = None \<Longrightarrow>
   (mode f \<noteq> ''REPEATED'' \<longrightarrow> field_from_json L resource f = Inr resource)
   \<and> (mode f = ''REPEATED'' \<longrightarrow> py_iter L resource = Inr items
          \<longrightarrow> map (\<lambda>item. py_getitem item ''v'') items = map Inr vs
          \<longrightarrow> field_from_json L resource f = Inr (VList vs))"
  by (simp add: field_from_json_def convert_items_identity)

theorem field_from_json_unregistered_witness:
  "map_of CELLDATA_FROM_JSON (field_type (Field ''x'' ''JSON'' ''NULLABLE'' [])) = None
   \<and> field_from_json no_lib (VStr ''{}'') (Field ''x'' ''JSON'' ''NULLABLE'' []) = Inr (VStr ''{}'')
   \<and> map_of CELLDATA_FROM_JSON (field_type (Field ''x'' ''JSON'' ''REPEATED'' [])) = None
   \<and> field_from_json no_lib
        (VList [VDict (fmupd ''v'' (VStr ''a'') fmempty), VDict (fmupd ''v'' VNone fmempty)])
        (Field ''x'' ''JSON'' ''REPEATED'' [])
       = Inr (VList [VStr ''a'', VNone])"
proof -
  have t1: "map_of CELLDATA_FROM_JSON (field_type (Field ''x'' ''JSON'' ''NULLABLE'' [])) = None"
    by (simp add: CELLDATA_FROM_JSON_def)
  have t2: "map_of CELLDATA_FROM_JSON (field_type (Field ''x'' ''JSON'' ''REPEATED'' [])) = None"
    by (simp add: CELLDATA_FROM_JSON_def)
  let ?items = "[VDict (fmupd ''v'' (VStr ''a'') fmempty), VDict (fmupd ''v'' VNone fmempty)]"
  have i: "py_iter no_lib (VList ?items) = Inr ?items" by simp
  have g: "map (\<lambda>item. py_getitem item ''v'') ?items = map Inr [VStr ''a'', VNone]" by simp
  from field_from_json_unregistered [OF t1, where L = no_lib and resource = "VStr ''{}''"]
    field_from_json_unregistered [OF t2, where L = no_lib and resource = "VList ?items"
      and items = ?items and vs = "[VStr ''a'', VNone]"] t1 t2 i g
  show ?thesis by simp
qed

lemmas strptime_eval =
  strptime_def TIMEONLY_WO_MICROS_def TIMEONLY_W_MICROS_def among_def is_digit_def digits_val_def
  digit_val_def lower_char_def parsed_default_def valid_date_def valid_time_def valid_tz_def
  days_in_month_def DAYS_IN_MONTH_def is_leap_def dt_time_def Let_def

text \<open>
  C6: for a TIME wire string, \<^verbatim>\<open>_time_from_json\<close> parses a string of 8 characters with
  \<^verbatim>\<open>%H:%M:%S\<close>, a string of 15 characters with \<^verbatim>\<open>%H:%M:%S.%f\<close>, and raises
  \<^verbatim>\<open>ValueError\<close> with the string in its message for any other length.
\<close>

theorem time_from_json_length_dispatch:
  "(length s = 8 \<longrightarrow>
      time_from_json L (VStr s) fld
        = (case strptime s TIMEONLY_WO_MICROS of Inl e \<Rightarrow> Inl e | Inr dt \<Rightarrow> Inr (VTime (dt_time dt))))
   \<and> (length s = 15 \<longrightarrow>
      time_from_json L (VStr s) fld
        = (case strptime s TIMEONLY_W_MICROS of Inl e \<Rightarrow> Inl e | Inr dt \<Rightarrow> Inr (VTime (dt_time dt))))
   \<and> (length s \<noteq> 8 \<and> length s \<noteq> 15 \<longrightarrow>
      time_from_json L (VStr s) fld = Inl (ValueError (''Unknown time format: '' @ s)))"
  by (simp add: time_from_json_def not_null_def)

theorem time_from_json_length_dispatch_witness:
  "time_from_json no_lib (VStr ''12:30:00'') None
     = Inr (VTime \<lparr>hour = 12, minute = 30, second = 0, microsecond = 0, tzinfo = None\<rparr>)
   \<and> time_from_json no_lib (VStr ''12:30:00.123456'') None
     = Inr (VTime \<lparr>hour = 12, minute = 30, second = 0, microsecond = 123456, tzinfo = None\<rparr>)
   \<and> time_from_json no_lib (VStr ''12:30'') None = Inl (ValueError ''Unknown time format: 12:30'')"
proof -
  have p8: "strptime ''12:30:00'' TIMEONLY_WO_MICROS
      = Inr \<lparr>dt_date = \<lparr>year = 1900, month = 1, day = 1\<rparr>,
             dt_timetz = \<lparr>hour = 12, minute = 30, second = 0, microsecond = 0, tzinfo = None\<rparr>\<rparr>"
    by (simp add: strptime_eval)
  have p15: "strptime ''12:30:00.123456'' TIMEONLY_W_MICROS
      = Inr \<lparr>dt_date = \<lparr>year = 1900, month = 1, day = 1\<rparr>,
             dt_timetz = \<lparr>hour = 12, minute = 30, second = 0, microsecond = 123456, tzinfo = None\<rparr>\<rparr>"
    by (simp add: strptime_eval)
  from time_from_json_length_dispatch [of "''12:30:00''" no_lib None]
    time_from_json_length_dispatch [of "''12:30:00.123456''" no_lib None]
    time_from_json_length_dispatch [of "''12:30''" no_lib None] p8 p15
  show ?thesis by (simp add: dt_time_def)
qed

text \<open>
  C1, amended: decoding \<^verbatim>\<open>None\<close> against a REQUIRED field raises \<^verbatim>\<open>TypeError\<close> for
  INTEGER, INT64, FLOAT, FLOAT64, NUMERIC, BIGNUMERIC, BYTES, TIMESTAMP, DATETIME, DATE, TIME
  and INTERVAL; for BOOLEAN and BOOL it raises \<^verbatim>\<open>AttributeError\<close> (\<^verbatim>\<open>None\<close> has no
  \<^verbatim>\<open>lower\<close>); for STRING and GEOGRAPHY it returns \<^verbatim>\<open>None\<close>, since
  \<^verbatim>\<open>_string_from_json\<close> ignores the field.
\<close>

theorem null_for_required_field:
  "mode f = ''REQUIRED'' \<Longrightarrow> map_of CELLDATA_FROM_JSON (field_type f) = Some c \<Longrightarrow>
   (field_type f \<in> set [''INTEGER'', ''INT64'', ''FLOAT'', ''FLOAT64'', ''NUMERIC'', ''BIGNUMERIC'',
                          ''BYTES'', ''TIMESTAMP'', ''DATETIME'', ''DATE'', ''TIME'', ''INTERVAL'']
      \<longrightarrow> (\<exists>msg. convert L c VNone (Some f) = Inl (TypeError msg)))
   \<and> (field_type f \<in> set [''BOOLEAN'', ''BOOL'']
      \<longrightarrow> (\<exists>msg. convert L c VNone (Some f) = Inl (AttributeError msg)))
   \<and> (field_type f \<in> set [''STRING'', ''GEOGRAPHY''] \<longrightarrow> convert L c VNone (Some f) = Inr VNone)"
  by (auto simp add: CELLDATA_FROM_JSON_def not_null_def int_from_json_def float_from_json_def
      decimal_from_json_def bytes_from_json_def timestamp_from_json_def datetime_from_json_def
      date_from_json_def time_from_json_def interval_from_json_def bool_from_json_def
      string_from_json_def)

text \<open>
  C1, as stated, fails for STRING (no exception, \<^verbatim>\<open>None\<close> is returned) and for BOOLEAN
  (the exception is \<^verbatim>\<open>AttributeError\<close>, not \<^verbatim>\<open>TypeError\<close>).
\<close>

theorem null_for_required_field_counterexample:
  "map_of CELLDATA_FROM_JSON ''STRING'' = Some StringFromJson
   \<and> convert no_lib StringFromJson VNone (Some (Field ''s'' ''STRING'' ''REQUIRED'' [])) = Inr VNone
   \<and> map_of CELLDATA_FROM_JSON ''BOOLEAN'' = Some BoolFromJson
   \<and> convert no_lib BoolFromJson VNone (Some (Field ''b'' ''BOOLEAN'' ''REQUIRED'' []))
       = Inl (AttributeError [])"
  by (simp add: CELLDATA_FROM_JSON_def string_from_json_def bool_from_json_def not_null_def)

theorem null_for_required_field_witness:
  "mode (Field ''n'' ''INTEGER'' ''REQUIRED'' []) = ''REQUIRED''
   \<and> map_of CELLDATA_FROM_JSON (field_type (Field ''n'' ''INTEGER'' ''REQUIRED'' [])) = Some IntFromJson
   \<and> (\<exists>msg. convert no_lib IntFromJson VNone (Some (Field ''n'' ''INTEGER'' ''REQUIRED'' []))
              = Inl (TypeError msg))"
proof -
  have m: "mode (Field ''n'' ''INTEGER'' ''REQUIRED'' []) = ''REQUIRED''" by simp
  have t: "map_of CELLDATA_FROM_JSON (field_type (Field ''n'' ''INTEGER'' ''REQUIRED'' [])) = Some IntFromJson"
    by (simp add: CELLDATA_FROM_JSON_def)
  from null_for_required_field [OF m t, of no_lib] m t show ?thesis by simp
qed

subsection \<open>Intervals\<close>

lemma is_digit_simps [simp]:
  "\<not> is_digit CHR ''-''" "\<not> is_digit CHR '' ''" "\<not> is_digit CHR '':''" "\<not> is_digit CHR ''.''"
  by (simp_all add: is_digit_def)

lemma takeWhile_digits:
  "list_all is_digit ds \<Longrightarrow> \<not> is_digit x
   \<Longrightarrow> takeWhile is_digit (ds @ x # rest) = ds \<and> dropWhile is_digit (ds @ x # rest) = x # rest"
  by (induction ds) auto

lemma takeWhile_digits_end:
  "list_all is_digit ds \<Longrightarrow> takeWhile is_digit ds = ds \<and> dropWhile is_digit ds = []"
  by (induction ds) auto

lemma digits1_app:
  "digit_string ds \<Longrightarrow> \<not> is_digit x \<Longrightarrow> digits1 (ds @ x # rest) = Some (ds, x # rest)"
  by (simp add: digits1_def digit_string_def takeWhile_digits)

lemma digits1_end: "digit_string ds \<Longrightarrow> digits1 ds = Some (ds, [])"
  by (simp add: digits1_def digit_string_def takeWhile_digits_end)

lemma digits_then_app:
  "digit_string ds \<Longrightarrow> \<not> is_digit x \<Longrightarrow> digits_then x (ds @ x # rest) = Some (ds, rest)"
  by (simp add: digits_then_def digits1_app)

lemma opt_minus_sign:
  "digit_string ds \<Longrightarrow> opt_minus (sign_text neg @ ds @ rest) = (sign_text neg, ds @ rest)"
  by (cases ds) (auto simp: sign_text_def digit_string_def)

lemma match_calendar_app:
  "digit_string ys \<Longrightarrow> digit_string ms
   \<Longrightarrow> match_calendar (sign_text neg @ ys @ CHR ''-'' # ms @ CHR '' '' # rest)
       = Some ((sign_text neg, ys, ms), rest)"
  by (simp add: match_calendar_def opt_minus_sign digits_then_app)

lemma match_days_app:
  "digit_string ds
   \<Longrightarrow> match_days (sign_text neg @ ds @ CHR '' '' # rest) = Some (sign_text neg @ ds, rest)"
  by (simp add: match_days_def opt_minus_sign digits_then_app)

lemma match_time_app:
  "digit_string hs \<Longrightarrow> digit_string mis \<Longrightarrow> digit_string ss
   \<Longrightarrow> match_time (sign_text neg @ hs @ CHR '':'' # mis @ CHR '':'' # ss @ CHR ''.'' # rest)
       = Some ((sign_text neg, hs, mis, ss), CHR ''.'' # rest)"
  by (simp add: match_time_def opt_minus_sign digits_then_app digits1_app)

lemma match_time_end:
  "digit_string hs \<Longrightarrow> digit_string mis \<Longrightarrow> digit_string ss
   \<Longrightarrow> match_time (sign_text neg @ hs @ CHR '':'' # mis @ CHR '':'' # ss)
       = Some ((sign_text neg, hs, mis, ss), [])"
  by (simp add: match_time_def opt_minus_sign digits_then_app digits1_end)

lemma match_fraction_dot:
  "list_all is_digit fs \<Longrightarrow> match_fraction (CHR ''.'' # fs) = Some fs"
  using takeWhile_digits_end [of fs] by (simp add: match_fraction_def)

lemma match_fraction_end: "match_fraction [] = Some []"
  by (simp add: match_fraction_def)

lemma int_group_digits: "digit_string ds \<Longrightarrow> int_group ds = int (digits_val ds)"
  by (cases ds) (auto simp: int_group_def digit_string_def)

lemma int_group_signed:
  "digit_string ds \<Longrightarrow> int_group (sign_text neg @ ds) = sign_factor neg * int (digits_val ds)"
  by (cases ds) (auto simp: int_group_def digit_string_def sign_text_def sign_factor_def)

lemma ljust0_digits:
  assumes "fs \<noteq> []" "list_all is_digit fs"
  shows "digit_string (ljust0 6 fs)"
proof -
  let ?p = "fs @ replicate (6 - length fs) CHR ''0''"
  have z: "is_digit CHR ''0''" by (simp add: is_digit_def)
  have a: "list_all is_digit ?p"
    using assms(2) z by (auto simp: list_all_iff)
  have b: "list_all is_digit (take 6 ?p)"
    using a in_set_takeD unfolding list_all_iff by fast
  have c: "take 6 ?p \<noteq> []"
    using assms(1) by (cases fs) simp_all
  show ?thesis
    unfolding ljust0_def digit_string_def using b c by blast
qed

lemma interval_from_json_match:
  "interval_match s = Some g \<Longrightarrow>
   interval_from_json L (VStr s) fld
   = Inr (VInterval (relativedelta_new
            ((if g_calendar_sign g = ''-'' then - 1 else 1) * int_group (g_years g))
            ((if g_calendar_sign g = ''-'' then - 1 else 1) * int_group (g_months g))
            (int_group (g_days g))
            ((if g_time_sign g = ''-'' then - 1 else 1) * int_group (g_hours g))
            ((if g_time_sign g = ''-'' then - 1 else 1) * int_group (g_minutes g))
            ((if g_time_sign g = ''-'' then - 1 else 1) * int_group (g_seconds g))
            (if g_fraction g \<noteq> []
             then (if g_time_sign g = ''-'' then - 1 else 1) * int_group (ljust0 6 (g_fraction g))
             else 0)))"
  by (simp add: interval_from_json_def not_null_def Let_def)

lemma interval_match_canonical:
  assumes "digit_string ys" "digit_string ms" "digit_string ds"
    and "digit_string hs" "digit_string mis" "digit_string ss" "list_all is_digit fs"
  shows "interval_match (sign_text cneg @ ys @ ''-'' @ ms @ '' '' @ sign_text dneg @ ds @ '' ''
                         @ sign_text tneg @ hs @ '':'' @ mis @ '':'' @ ss
                         @ (if fs = [] then [] else ''.'' @ fs))
         = Some \<lparr>g_calendar_sign = sign_text cneg, g_years = ys, g_months = ms,
                  g_days = sign_text dneg @ ds, g_time_sign = sign_text tneg, g_hours = hs,
                  g_minutes = mis, g_seconds = ss, g_fraction = fs\<rparr>"
proof (cases "fs = []")
  case True
  with assms show ?thesis
    by (simp add: interval_match_def match_calendar_app match_days_app match_time_end
        match_fraction_end)
next
  case False
  with assms show ?thesis
    by (simp add: interval_match_def match_calendar_app match_days_app match_time_app
        match_fraction_dot)
qed

text \<open>
  C3: on a text of the canonical form, with years, months, days, hours, minutes and
  seconds any non-empty digit strings, an optional fraction, and three independent
  optional minus signs, \<^verbatim>\<open>_interval_from_json\<close> passes to \<^verbatim>\<open>relativedelta\<close> the years and
  months with the calendar sign, the days with their own sign, and the hours, minutes,
  seconds and microseconds with the time sign. The witness gives the fields of the two
  results of the spec.
\<close>

theorem interval_from_json_signs:
  assumes "digit_string ys" "digit_string ms" "digit_string ds"
    and "digit_string hs" "digit_string mis" "digit_string ss" "list_all is_digit fs"
  shows "interval_from_json L
           (VStr (sign_text cneg @ ys @ ''-'' @ ms @ '' '' @ sign_text dneg @ ds @ '' ''
                  @ sign_text tneg @ hs @ '':'' @ mis @ '':'' @ ss
                  @ (if fs = [] then [] else ''.'' @ fs))) fld
         = Inr (VInterval (relativedelta_new
                  (sign_factor cneg * int (digits_val ys))
                  (sign_factor cneg * int (digits_val ms))
                  (sign_factor dneg * int (digits_val ds))
                  (sign_factor tneg * int (digits_val hs))
                  (sign_factor tneg * int (digits_val mis))
                  (sign_factor tneg * int (digits_val ss))
                  (if fs = [] then 0 else sign_factor tneg * int (digits_val (ljust0 6 fs)))))"
proof -
  have s: "(if sign_text b = ''-'' then - 1 else 1) = sign_factor b" for b
    by (simp add: sign_text_def sign_factor_def)
  have f: "fs \<noteq> [] \<Longrightarrow> int_group (ljust0 6 fs) = int (digits_val (ljust0 6 fs))"
    using assms(7) by (simp add: int_group_digits ljust0_digits)
  show ?thesis
    unfolding interval_from_json_match [OF interval_match_canonical [OF assms]]
    using assms(1-6) f
    by (simp add: s int_group_digits int_group_signed)
qed


theorem interval_from_json_signs_witness:
  "interval_from_json no_lib (VStr ''-1-2 3 4:5:6'') None
     = Inr (VInterval \<lparr>years = - 1, months = - 2, days = 3, hours = 4, minutes = 5,
                        seconds = 6, microseconds = 0\<rparr>)
   \<and> interval_from_json no_lib (VStr ''-1-6 -15 -10:20:30.500000'') None
     = Inr (VInterval \<lparr>years = - 1, months = - 6, days = - 15, hours = - 10, minutes = - 20,
                        seconds = - 30, microseconds = - 500000\<rparr>)"
proof -
  have d: "digit_string ''1''" "digit_string ''2''" "digit_string ''3''" "digit_string ''4''"
    "digit_string ''5''" "digit_string ''6''" "digit_string ''15''" "digit_string ''10''"
    "digit_string ''20''" "digit_string ''30''" "list_all is_digit []"
    "list_all is_digit ''500000''"
    by (simp_all add: digit_string_def is_digit_def)
  note ev = sign_text_def sign_factor_def digits_val_def digit_val_def ljust0_def
    relativedelta_new_def relativedelta_fix_def carry_def
  from interval_from_json_signs [OF d(1) d(2) d(3) d(4) d(5) d(6) d(11),
      where cneg = True and dneg = False and tneg = False and L = no_lib and fld = None]
  have e1: "interval_from_json no_lib (VStr ''-1-2 3 4:5:6'') None
     = Inr (VInterval \<lparr>years = - 1, months = - 2, days = 3, hours = 4, minutes = 5,
                        seconds = 6, microseconds = 0\<rparr>)"
    by (simp add: ev)
  from interval_from_json_signs [OF d(1) d(6) d(7) d(8) d(9) d(10) d(12),
      where cneg = True and dneg = True and tneg = True and L = no_lib and fld = None]
  have e2: "interval_from_json no_lib (VStr ''-1-6 -15 -10:20:30.500000'') None
     = Inr (VInterval \<lparr>years = - 1, months = - 6, days = - 15, hours = - 10, minutes = - 20,
                        seconds = - 30, microseconds = - 500000\<rparr>)"
    by (simp add: ev)
  from e1 e2 show ?thesis by simp
qed


section \<open>Encoding of fields and records\<close>

text \<open>
  C9: for every field, whatever its type and mode, \<^verbatim>\<open>_field_to_json(field, None)\<close>
  returns \<^verbatim>\<open>None\<close>.
\<close>

theorem field_to_json_none: "field_to_json L f VNone = Inr VNone"
  by simp

text \<open>
  C4: a record value that is no mapping and whose length differs from the number of
  subfields makes \<^verbatim>\<open>_record_field_to_json\<close> raise \<^verbatim>\<open>ValueError\<close>, and the message names
  both lengths. The witness is the pair of the spec: a tuple of two against three
  subfields, with the message written out.
\<close>

theorem record_field_to_json_length_mismatch:
  "dict_of row_value = None \<Longrightarrow> py_len row_value = Inr n \<Longrightarrow> n \<noteq> length flds
   \<Longrightarrow> record_field_to_json L flds row_value
       = Inl (ValueError (''The number of row fields ('' @ str_int (int n)
                          @ '') does not match schema length ('' @ str_int (int (length flds))
                          @ '').''))"
  by (simp add: length_mismatch_def)

theorem record_field_to_json_length_mismatch_witness:
  "dict_of (VTuple [VInt 1, VInt 2]) = None
   \<and> py_len (VTuple [VInt 1, VInt 2]) = Inr 2
   \<and> 2 \<noteq> length [Field ''a'' ''INTEGER'' ''NULLABLE'' [], Field ''b'' ''STRING'' ''NULLABLE'' [],
                    Field ''c'' ''BOOL'' ''NULLABLE'' []]
   \<and> record_field_to_json no_lib
        [Field ''a'' ''INTEGER'' ''NULLABLE'' [], Field ''b'' ''STRING'' ''NULLABLE'' [],
         Field ''c'' ''BOOL'' ''NULLABLE'' []]
        (VTuple [VInt 1, VInt 2])
      = Inl (ValueError ''The number of row fields (2) does not match schema length (3).'')"
proof -
  let ?flds = "[Field ''a'' ''INTEGER'' ''NULLABLE'' [], Field ''b'' ''STRING'' ''NULLABLE'' [],
                Field ''c'' ''BOOL'' ''NULLABLE'' []]"
  have d: "dict_of (VTuple [VInt 1, VInt 2]) = None" by simp
  have l: "py_len (VTuple [VInt 1, VInt 2]) = Inr 2" by simp
  have n: "2 \<noteq> length ?flds" by simp
  have s: "str_int 2 = ''2''" "str_int 3 = ''3''"
    by (simp_all add: str_int_def digits_of.simps digit_char_def)
  from record_field_to_json_length_mismatch [OF d l n, of no_lib] d l n s
  show ?thesis by simp
qed





section \<open>Encoding followed by decoding\<close>

lemma is_space_digit: "is_digit c \<Longrightarrow> \<not> is_space c"
  by (auto simp: is_digit_def is_space_def)

lemma strip_id: "s \<noteq> [] \<Longrightarrow> \<not> is_space (hd s) \<Longrightarrow> \<not> is_space (last s) \<Longrightarrow> strip s = s"
proof -
  assume a: "s \<noteq> []" "\<not> is_space (hd s)" "\<not> is_space (last s)"
  then have "dropWhile is_space s = s" by (cases s) auto
  moreover from a have "dropWhile is_space (rev s) = rev s"
    by (cases "rev s") (auto simp: last_rev [symmetric] hd_rev)
  ultimately show ?thesis by (simp add: strip_def)
qed

lemma int_digits_digits: "digit_string ds \<Longrightarrow> int_digits ds = Some ds"
proof (induction ds rule: int_digits.induct)
  case 1
  then show ?case by (simp add: digit_string_def)
next
  case (2 c)
  then show ?case by (simp add: digit_string_def)
next
  case (3 c d cs)
  then have d: "is_digit c" "is_digit d" "digit_string (d # cs)"
    by (simp_all add: digit_string_def)
  then have "d \<noteq> CHR ''_''" by (auto simp: is_digit_def)
  with 3 d show ?case by simp
qed

lemma digit_string_digits_of: "digit_string (digits_of n)"
  by (simp add: digit_string_def digits_of_digits digits_of_nonempty)

lemma strip_digits: "digit_string ds \<Longrightarrow> strip ds = ds"
proof -
  assume d: "digit_string ds"
  then have "is_digit (hd ds)" "is_digit (last ds)"
    by (auto simp: digit_string_def list_all_iff)
  with d show ?thesis by (simp add: strip_id is_space_digit digit_string_def)
qed

lemma strip_minus_digits: "digit_string ds \<Longrightarrow> strip (CHR ''-'' # ds) = CHR ''-'' # ds"
proof -
  assume d: "digit_string ds"
  then have "is_digit (last ds)" by (auto simp: digit_string_def list_all_iff)
  with d have "\<not> is_space (last (CHR ''-'' # ds))" by (simp add: is_space_digit digit_string_def)
  moreover have "\<not> is_space (hd (CHR ''-'' # ds))" by (simp add: is_space_def)
  ultimately show ?thesis by (intro strip_id) simp_all
qed

lemma int_of_str_str_int: "int_of_str (str_int i) = Some i"
proof (cases "i < 0")
  case True
  then show ?thesis
    using digit_string_digits_of [of "nat (- i)"]
    by (simp add: int_of_str_def str_int_def strip_minus_digits int_digits_digits
        digits_val_digits_of)
next
  case False
  let ?ds = "digits_of (nat i)"
  have d: "digit_string ?ds" by (rule digit_string_digits_of)
  then obtain c cs where cs: "?ds = c # cs" by (cases ?ds) (auto simp: digit_string_def)
  with d have "is_digit c" by (simp add: digit_string_def)
  then have "c \<noteq> CHR ''-''" "c \<noteq> CHR ''+''" by (auto simp: is_digit_def)
  moreover have "strip ?ds = c # cs" using strip_digits [OF d] cs by simp
  moreover have "int_digits (c # cs) = Some ?ds" using int_digits_digits [OF d] cs by simp
  ultimately show ?thesis using False
    by (simp add: int_of_str_def str_int_def digits_val_digits_of)
qed

lemma int_round_trip: "int_from_json (int_to_json L (VInt i)) fld = Inr (VInt i)"
  by (simp add: int_from_json_def not_null_def int_of_str_str_int)

lemma float_round_trip:
  "float_to_json L (VFloat (Finite q)) = Inr (VFloat (Finite q))"
  "float_from_json L (VFloat (Finite q)) fld = Inr (VFloat (Finite q))"
  by (simp_all add: float_to_json_def float_from_json_def not_null_def)

lemma bool_round_trip: "bool_from_json (bool_to_json (VBool b)) fld = Inr (VBool b)"
  by (simp add: bool_from_json_def not_null_def lower_def lower_char_def)

lemma zpad2: "n < 100 \<Longrightarrow> zpad 2 n = [digit_char (n div 10), digit_char (n mod 10)]"
proof (cases "n < 10")
  case True
  then show ?thesis by (simp add: zpad_def digits_of.simps [of n] digit_char_def)
next
  case False
  assume "n < 100"
  then have "n div 10 < 10" by simp
  with False show ?thesis
    by (simp add: zpad_def digits_of.simps [of n] digits_of.simps [of "n div 10"])
qed

lemma zpad4_shape:
  assumes "n < 10000"
  obtains a b c d where "zpad 4 n = [a, b, c, d]" "is_digit a" "is_digit b" "is_digit c" "is_digit d"
proof -
  from assms have l: "length (zpad 4 n) = 4" by (simp add: length_zpad)
  then obtain a b c d where e: "zpad 4 n = [a, b, c, d]"
    by (auto simp: length_Suc_conv numeral_eq_Suc)
  with zpad_digits [of 4 n] that show ?thesis by simp
qed

lemma match_Y: "y < 10000 \<Longrightarrow> match_dir DirY (zpad 4 y @ rest) = Some (zpad 4 y, rest)"
  by (erule zpad4_shape) simp

lemma match_Lit: "match_dir (Lit c) (c # rest) = Some ([c], rest)"
  by simp

lemma below_six: "tens < 6 \<Longrightarrow> tens \<in> {0, 1, 2, 3, 4, 5::nat}"
  by auto

lemma below_four: "units < 4 \<Longrightarrow> units \<in> {0, 1, 2, 3::nat}"
  by auto

lemma match_M: "n < 60 \<Longrightarrow> match_dir DirM (zpad 2 n @ rest) = Some (zpad 2 n, rest)"
proof -
  assume n: "n < 60"
  then have "n div 10 < 6" by simp
  then have "among ''012345'' (digit_char (n div 10))"
    by (drule_tac below_six) (auto simp: among_def digit_char_def)
  moreover have "is_digit (digit_char (n mod 10))" by (simp add: digit_char_is_digit)
  ultimately show ?thesis using n by (simp add: zpad2)
qed

lemma match_S: "n < 60 \<Longrightarrow> match_dir DirS (zpad 2 n @ rest) = Some (zpad 2 n, rest)"
proof -
  assume n: "n < 60"
  then have "n div 10 < 6" by simp
  then have "among ''012345'' (digit_char (n div 10)) \<and> \<not> among ''6'' (digit_char (n div 10))"
    by (drule_tac below_six) (auto simp: among_def digit_char_def)
  moreover have "is_digit (digit_char (n mod 10))" by (simp add: digit_char_is_digit)
  ultimately show ?thesis using n by (simp add: zpad2)
qed

lemma match_H: "n < 24 \<Longrightarrow> match_dir DirH (zpad 2 n @ rest) = Some (zpad 2 n, rest)"
proof -
  assume n: "n < 24"
  have d: "is_digit (digit_char (n mod 10))" by (simp add: digit_char_is_digit)
  show ?thesis
  proof (cases "n < 20")
    case True
    then have "n div 10 < 4" by simp
    moreover from True have "n div 10 \<noteq> 2" "n div 10 \<noteq> 3" by simp_all
    ultimately have "among ''01'' (digit_char (n div 10)) \<and> \<not> among ''2'' (digit_char (n div 10))"
      by (drule_tac below_four) (auto simp: among_def digit_char_def)
    with d True show ?thesis by (simp add: zpad2)
  next
    case False
    with n have "n div 10 = 2" "n mod 10 < 4" by presburger+
    then have "among ''2'' (digit_char (n div 10)) \<and> among ''0123'' (digit_char (n mod 10))"
      by (auto dest!: below_four simp: among_def digit_char_def)
    with n show ?thesis by (simp add: zpad2)
  qed
qed

lemma month_cases:
  "1 \<le> mth \<Longrightarrow> mth \<le> 12 \<Longrightarrow> mth \<in> {1, 2, 3, 4, 5, 6, 7, 8, 9, 10, 11, 12::nat}"
  by (simp, arith)

lemma match_m: "1 \<le> m \<Longrightarrow> m \<le> 12 \<Longrightarrow> match_dir Dirm (zpad 2 m @ rest) = Some (zpad 2 m, rest)"
  by (drule (1) month_cases) (auto simp: zpad2 among_def digit_char_def)

lemma match_d: "1 \<le> d \<Longrightarrow> d \<le> 31 \<Longrightarrow> match_dir Dird (zpad 2 d @ rest) = Some (zpad 2 d, rest)"
proof -
  assume d: "1 \<le> d" "d \<le> 31"
  have b: "is_digit (digit_char (d mod 10))" by (simp add: digit_char_is_digit)
  consider "d < 10" | "10 \<le> d \<and> d < 30" | "30 \<le> d" by linarith
  then show ?thesis
  proof cases
    case 1
    with d have "d div 10 = 0" "d mod 10 = d" "d \<noteq> 0" by simp_all
    moreover from 1 d have "among ''123456789'' (digit_char d)"
      by (auto dest!: below_ten simp: among_def digit_char_def)
    ultimately show ?thesis using 1 by (simp add: zpad2 among_def digit_char_def)
  next
    case 2
    then have "d div 10 = 1 \<or> d div 10 = 2" by linarith
    then have "among ''12'' (digit_char (d div 10)) \<and> \<not> among ''3'' (digit_char (d div 10))"
      by (auto simp: among_def digit_char_def)
    with b d show ?thesis by (simp add: zpad2)
  next
    case 3
    with d have "d div 10 = 3" "d mod 10 < 2" by presburger+
    then have "among ''3'' (digit_char (d div 10)) \<and> among ''01'' (digit_char (d mod 10))"
      by (auto simp: among_def digit_char_def less_2_cases_iff)
    with d show ?thesis by (simp add: zpad2)
  qed
qed

lemma match_f:
  "us < 1000000 \<Longrightarrow> match_dir Dirf (zpad 6 us @ rest) = Some (zpad 6 us, rest)"
proof -
  assume "us < 1000000"
  then have l: "length (zpad 6 us) = 6" by (simp add: length_zpad)
  have t: "takeWhile is_digit (zpad 6 us) = zpad 6 us"
    using takeWhile_digits_end [OF zpad_digits [of 6 us]] by simp
  from l have tk: "take 6 (zpad 6 us @ rest) = zpad 6 us" by simp
  from l have ne: "zpad 6 us \<noteq> []" by auto
  show ?thesis by (simp add: tk t ne l Let_def del: take_append)
qed

lemma filter_digits: "list_all is_digit xs \<Longrightarrow> filter is_digit xs = xs"
  by (induction xs) auto

lemma days_in_month_le: "1 \<le> m \<Longrightarrow> m \<le> 12 \<Longrightarrow> days_in_month y m \<le> 31"
  by (drule (1) month_cases) (auto simp: days_in_month_def DAYS_IN_MONTH_def)

lemma match_end:
  "1 \<le> d \<Longrightarrow> d \<le> 31 \<Longrightarrow> match_dir Dird (zpad 2 d) = Some (zpad 2 d, [])"
  "n < 60 \<Longrightarrow> match_dir DirS (zpad 2 n) = Some (zpad 2 n, [])"
  "us < 1000000 \<Longrightarrow> match_dir Dirf (zpad 6 us) = Some (zpad 6 us, [])"
  using match_d [of d "[]"] match_S [of n "[]"] match_f [of us "[]"]
  by (simp_all del: match_dir.simps)

lemma date_eta: "\<lparr>year = year d, month = month d, day = day d\<rparr> = d"
  by (cases d) simp

lemma time_eta:
  "tzinfo t = None \<Longrightarrow>
   \<lparr>hour = hour t, minute = minute t, second = second t, microsecond = microsecond t,
    tzinfo = None\<rparr> = t"
  by (cases t) simp

lemma datetime_eta: "\<lparr>dt_date = dt_date dt, dt_timetz = dt_timetz dt\<rparr> = dt"
  by (cases dt) simp

lemma length_zpad2: "n < 100 \<Longrightarrow> length (zpad 2 n) = 2"
  by (simp add: zpad2)

lemma strptime_date:
  assumes "valid_date d"
  shows "strptime (date_isoformat d) ISO8601_DATE
         = Inr \<lparr>dt_date = d,
                dt_timetz = \<lparr>hour = 0, minute = 0, second = 0, microsecond = 0, tzinfo = None\<rparr>\<rparr>"
proof -
  from assms have b: "year d < 10000" "1 \<le> month d" "month d \<le> 12" "1 \<le> day d"
    "day d \<le> days_in_month (year d) (month d)"
    by (simp_all add: valid_date_def)
  with days_in_month_le [of "month d" "year d"] have d31: "day d \<le> 31" by simp
  have m: "match_format ISO8601_DATE (date_isoformat d) parsed_default
           = Some (parsed_default\<lparr>p_year := year d, p_month := month d, p_day := day d\<rparr>)"
    using b d31
    by (simp add: ISO8601_DATE_def date_isoformat_def match_Y match_m match_end
        digits_val_zpad match_Lit filter_digits zpad_digits del: match_dir.simps)
  show ?thesis
    unfolding strptime_def m
    using assms by (simp add: parsed_default_def valid_time_def valid_tz_def Let_def date_eta)
qed

lemma valid_1900: "valid_date \<lparr>year = 1900, month = 1, day = 1\<rparr>"
  by (simp add: valid_date_def days_in_month_def DAYS_IN_MONTH_def)

lemma strptime_time_wo:
  assumes "valid_time t" "tzinfo t = None" "microsecond t = 0"
  shows "strptime (format_time t) TIMEONLY_WO_MICROS
         = Inr \<lparr>dt_date = \<lparr>year = 1900, month = 1, day = 1\<rparr>, dt_timetz = t\<rparr>"
proof -
  from assms have b: "hour t < 24" "minute t < 60" "second t < 60"
    by (simp_all add: valid_time_def)
  have m: "match_format TIMEONLY_WO_MICROS (format_time t) parsed_default
           = Some (parsed_default\<lparr>p_hour := hour t, p_minute := minute t, p_second := second t\<rparr>)"
    using b assms(3)
    by (simp add: TIMEONLY_WO_MICROS_def format_time_def match_H match_M match_end
        digits_val_zpad match_Lit del: match_dir.simps)
  show ?thesis
    unfolding strptime_def m
    using assms valid_1900 time_eta [OF assms(2)]
    by (simp add: parsed_default_def Let_def valid_time_def valid_tz_def)
qed

lemma strptime_time_w:
  assumes "valid_time t" "tzinfo t = None" "microsecond t \<noteq> 0"
  shows "strptime (format_time t) TIMEONLY_W_MICROS
         = Inr \<lparr>dt_date = \<lparr>year = 1900, month = 1, day = 1\<rparr>, dt_timetz = t\<rparr>"
proof -
  from assms have b: "hour t < 24" "minute t < 60" "second t < 60" "microsecond t < 1000000"
    by (simp_all add: valid_time_def)
  then have l: "length (zpad 6 (microsecond t)) = 6" by (simp add: length_zpad)
  have m: "match_format TIMEONLY_W_MICROS (format_time t) parsed_default
           = Some (parsed_default\<lparr>p_hour := hour t, p_minute := minute t, p_second := second t,
                                    p_fraction := microsecond t\<rparr>)"
    using b assms(3) l
    by (simp add: TIMEONLY_W_MICROS_def format_time_def match_H match_M match_S match_end
        digits_val_zpad match_Lit del: match_dir.simps)
  show ?thesis
    unfolding strptime_def m
    using assms valid_1900 time_eta [OF assms(2)]
    by (simp add: parsed_default_def Let_def valid_time_def valid_tz_def)
qed

lemma digits_of_four:
  assumes "1000 \<le> y" "y \<le> 9999"
  shows "digits_of y = zpad 4 y"
proof -
  from assms(1) have a: "\<not> y < 10" "\<not> y div 10 < 10" "\<not> y div 10 div 10 < 10" by simp_all
  have "digits_of y = digits_of (y div 10 div 10 div 10) @ [digit_char (y div 10 div 10 mod 10)]
          @ [digit_char (y div 10 mod 10)] @ [digit_char (y mod 10)]"
    using a
    by (simp add: digits_of.simps [of y] digits_of.simps [of "y div 10"]
        digits_of.simps [of "y div 10 div 10"])
  then have "4 \<le> length (digits_of y)"
    using digits_of_nonempty [of "y div 10 div 10 div 10"]
    by (cases "digits_of (y div 10 div 10 div 10)") simp_all
  then show ?thesis by (simp add: zpad_def)
qed

lemma strptime_datetime:
  assumes "valid_datetime dt" "tzinfo (dt_timetz dt) = None" "1000 \<le> year (dt_date dt)"
  shows "strptime (strftime dt RFC3339_MICROS_NO_ZULU) RFC3339_MICROS_NO_ZULU = Inr dt"
proof -
  let ?d = "dt_date dt" and ?t = "dt_timetz dt"
  from assms have b: "year ?d < 10000" "1 \<le> month ?d" "month ?d \<le> 12" "1 \<le> day ?d"
    "day ?d \<le> days_in_month (year ?d) (month ?d)"
    "hour ?t < 24" "minute ?t < 60" "second ?t < 60" "microsecond ?t < 1000000"
    by (simp_all add: valid_datetime_def valid_date_def valid_time_def)
  with days_in_month_le [of "month ?d" "year ?d"] have d31: "day ?d \<le> 31" by simp
  from b have l: "length (zpad 6 (microsecond ?t)) = 6" by (simp add: length_zpad)
  from b assms(3) have y4: "digits_of (year ?d) = zpad 4 (year ?d)" by (simp add: digits_of_four)
  have m: "match_format RFC3339_MICROS_NO_ZULU (strftime dt RFC3339_MICROS_NO_ZULU) parsed_default
           = Some \<lparr>p_year = year ?d, p_month = month ?d, p_day = day ?d, p_hour = hour ?t,
                   p_minute = minute ?t, p_second = second ?t, p_fraction = microsecond ?t\<rparr>"
    using b d31 l y4
    by (simp add: RFC3339_MICROS_NO_ZULU_def strftime_def match_Y match_m match_d match_H match_M
        match_S match_end match_Lit digits_val_zpad filter_digits zpad_digits parsed_default_def
        del: match_dir.simps)
  show ?thesis
    unfolding strptime_def m
    using assms(1,2) time_eta [OF assms(2)]
    by (simp add: valid_datetime_def Let_def date_eta datetime_eta valid_time_def valid_tz_def)
qed

lemma is_sublist_mid: "is_sublist [c] (xs @ c # ys)"
  by (induction xs) auto

lemma length_format_time:
  "valid_time t \<Longrightarrow> length (format_time t) = (if microsecond t = 0 then 8 else 15)"
  by (simp add: format_time_def valid_time_def length_zpad2 length_zpad)

lemma date_round_trip:
  "valid_date d \<Longrightarrow> date_from_json (date_to_json (VDate d)) fld = Inr (VDate d)"
  by (simp add: date_from_json_def not_null_def strptime_date)

lemma time_round_trip:
  assumes "valid_time t" "tzinfo t = None"
  shows "time_from_json L (time_to_json (VTime t)) fld = Inr (VTime t)"
proof -
  have i: "time_isoformat t = format_time t"
    using assms(2) by (simp add: time_isoformat_def format_offset_def)
  have e: "dt_time \<lparr>dt_date = \<lparr>year = 1900, month = 1, day = 1\<rparr>, dt_timetz = t\<rparr> = t"
    using assms(2) time_eta [OF assms(2)] by (cases t) (simp add: dt_time_def)
  show ?thesis
  proof (cases "microsecond t = 0")
    case True
    with assms e show ?thesis
      by (simp add: time_from_json_def not_null_def i length_format_time strptime_time_wo)
  next
    case False
    with assms e show ?thesis
      by (simp add: time_from_json_def not_null_def i length_format_time strptime_time_w)
  qed
qed

lemma datetime_round_trip:
  assumes "valid_datetime dt" "tzinfo (dt_timetz dt) = None" "1000 \<le> year (dt_date dt)"
  shows "datetime_to_json (VDatetime dt) = Inr (VStr (strftime dt RFC3339_MICROS_NO_ZULU))"
    and "datetime_from_json (VStr (strftime dt RFC3339_MICROS_NO_ZULU)) fld = Inr (VDatetime dt)"
proof -
  show "datetime_to_json (VDatetime dt) = Inr (VStr (strftime dt RFC3339_MICROS_NO_ZULU))"
    using assms(2) by (simp add: datetime_to_json_def)
  have "is_sublist ''.'' (strftime dt RFC3339_MICROS_NO_ZULU)"
    using is_sublist_mid [of "CHR ''.''"
        "digits_of (year (dt_date dt)) @ ''-'' @ zpad 2 (month (dt_date dt)) @ ''-''
         @ zpad 2 (day (dt_date dt)) @ ''T'' @ zpad 2 (hour (dt_timetz dt)) @ '':''
         @ zpad 2 (minute (dt_timetz dt)) @ '':'' @ zpad 2 (second (dt_timetz dt))"
        "zpad 6 (microsecond (dt_timetz dt))"]
    by (simp add: strftime_def RFC3339_MICROS_NO_ZULU_def)
  then show "datetime_from_json (VStr (strftime dt RFC3339_MICROS_NO_ZULU)) fld = Inr (VDatetime dt)"
    using strptime_datetime [OF assms] by (simp add: datetime_from_json_def not_null_def)
qed


lemma round_trip_int:
  "round_trip L ''INTEGER'' f (VInt i) = Inr (VInt i)"
  "round_trip L ''INT64'' f (VInt i) = Inr (VInt i)"
  by (simp_all add: round_trip_def SCALAR_VALUE_TO_JSON_ROW_def CELLDATA_FROM_JSON_def
      int_round_trip del: int_to_json.simps)

lemma round_trip_float:
  "round_trip L ''FLOAT'' f (VFloat (Finite q)) = Inr (VFloat (Finite q))"
  "round_trip L ''FLOAT64'' f (VFloat (Finite q)) = Inr (VFloat (Finite q))"
  by (simp_all add: round_trip_def SCALAR_VALUE_TO_JSON_ROW_def CELLDATA_FROM_JSON_def
      float_round_trip)

lemma round_trip_bool:
  "round_trip L ''BOOLEAN'' f (VBool b) = Inr (VBool b)"
  "round_trip L ''BOOL'' f (VBool b) = Inr (VBool b)"
  by (simp_all add: round_trip_def SCALAR_VALUE_TO_JSON_ROW_def CELLDATA_FROM_JSON_def
      bool_round_trip del: bool_to_json.simps)

lemma round_trip_date:
  "valid_date d \<Longrightarrow> round_trip L ''DATE'' f (VDate d) = Inr (VDate d)"
  by (simp add: round_trip_def SCALAR_VALUE_TO_JSON_ROW_def CELLDATA_FROM_JSON_def
      date_round_trip del: date_to_json.simps)

lemma round_trip_time:
  "valid_time t \<Longrightarrow> tzinfo t = None \<Longrightarrow> round_trip L ''TIME'' f (VTime t) = Inr (VTime t)"
  by (simp add: round_trip_def SCALAR_VALUE_TO_JSON_ROW_def CELLDATA_FROM_JSON_def
      time_round_trip del: time_to_json.simps)

lemma round_trip_datetime:
  "valid_datetime dt \<Longrightarrow> tzinfo (dt_timetz dt) = None \<Longrightarrow> 1000 \<le> year (dt_date dt)
   \<Longrightarrow> round_trip L ''DATETIME'' f (VDatetime dt) = Inr (VDatetime dt)"
  by (simp add: round_trip_def SCALAR_VALUE_TO_JSON_ROW_def CELLDATA_FROM_JSON_def
      datetime_round_trip)

text \<open>
  C2, amended: for every \<^verbatim>\<open>int\<close>, every finite \<^verbatim>\<open>float\<close>, every \<^verbatim>\<open>bool\<close>, every
  date, every time of day without zone and every datetime without zone whose year is 1000
  or later, encoding with the row-form encoder of the type and decoding the result with
  the decoder of the same type, for a NULLABLE field, returns the value.
\<close>

theorem scalar_round_trip:
  assumes "mode f = ''NULLABLE''"
  shows "(ty \<in> set [''INTEGER'', ''INT64''] \<longrightarrow> round_trip L ty f (VInt i) = Inr (VInt i))
       \<and> (ty \<in> set [''FLOAT'', ''FLOAT64''] \<and> \<not> isnan x \<and> \<not> isinf x
            \<longrightarrow> round_trip L ty f (VFloat x) = Inr (VFloat x))
       \<and> (ty \<in> set [''BOOLEAN'', ''BOOL''] \<longrightarrow> round_trip L ty f (VBool b) = Inr (VBool b))
       \<and> (valid_date d \<longrightarrow> round_trip L ''DATE'' f (VDate d) = Inr (VDate d))
       \<and> (valid_time t \<and> tzinfo t = None \<longrightarrow> round_trip L ''TIME'' f (VTime t) = Inr (VTime t))
       \<and> (valid_datetime dt \<and> tzinfo (dt_timetz dt) = None \<and> 1000 \<le> year (dt_date dt)
            \<longrightarrow> round_trip L ''DATETIME'' f (VDatetime dt) = Inr (VDatetime dt))"
proof (intro conjI impI)
  assume "ty \<in> set [''INTEGER'', ''INT64'']"
  then have "ty = ''INTEGER'' \<or> ty = ''INT64''" by simp
  then show "round_trip L ty f (VInt i) = Inr (VInt i)"
    using round_trip_int by blast
next
  assume a: "ty \<in> set [''FLOAT'', ''FLOAT64''] \<and> \<not> isnan x \<and> \<not> isinf x"
  then obtain q where q: "x = Finite q" by (cases x) simp_all
  from a have "ty = ''FLOAT'' \<or> ty = ''FLOAT64''" by simp
  then show "round_trip L ty f (VFloat x) = Inr (VFloat x)"
    using round_trip_float q by blast
next
  assume "ty \<in> set [''BOOLEAN'', ''BOOL'']"
  then have "ty = ''BOOLEAN'' \<or> ty = ''BOOL''" by simp
  then show "round_trip L ty f (VBool b) = Inr (VBool b)"
    using round_trip_bool by blast
next
  assume "valid_date d"
  then show "round_trip L ''DATE'' f (VDate d) = Inr (VDate d)"
    by (rule round_trip_date)
next
  assume "valid_time t \<and> tzinfo t = None"
  then show "round_trip L ''TIME'' f (VTime t) = Inr (VTime t)"
    using round_trip_time by blast
next
  assume "valid_datetime dt \<and> tzinfo (dt_timetz dt) = None \<and> 1000 \<le> year (dt_date dt)"
  then show "round_trip L ''DATETIME'' f (VDatetime dt) = Inr (VDatetime dt)"
    using round_trip_datetime by blast
qed

text \<open>
  C2, as stated, fails for a time of day that carries a zone: \<^verbatim>\<open>time.isoformat()\<close>
  appends the offset, the text has 14 characters, and \<^verbatim>\<open>_time_from_json\<close> raises. It
  also fails for a datetime without zone before the year 1000: \<^verbatim>\<open>strftime\<close> writes the
  year 999 with three digits, and \<^verbatim>\<open>strptime\<close> wants four for \<^verbatim>\<open>%Y\<close>.
\<close>

theorem scalar_round_trip_counterexample:
  "valid_time \<lparr>hour = 12, minute = 30, second = 0, microsecond = 0, tzinfo = Some UTC\<rparr>
   \<and> round_trip no_lib ''TIME'' (Field ''t'' ''TIME'' ''NULLABLE'' [])
        (VTime \<lparr>hour = 12, minute = 30, second = 0, microsecond = 0, tzinfo = Some UTC\<rparr>)
       = Inl (ValueError ''Unknown time format: 12:30:00+00:00'')
   \<and> valid_datetime \<lparr>dt_date = \<lparr>year = 999, month = 1, day = 2\<rparr>,
                       dt_timetz = \<lparr>hour = 3, minute = 4, second = 5, microsecond = 123456,
                                    tzinfo = None\<rparr>\<rparr>
   \<and> datetime_to_json
        (VDatetime \<lparr>dt_date = \<lparr>year = 999, month = 1, day = 2\<rparr>,
                    dt_timetz = \<lparr>hour = 3, minute = 4, second = 5, microsecond = 123456,
                                 tzinfo = None\<rparr>\<rparr>)
       = Inr (VStr ''999-01-02T03:04:05.123456'')
   \<and> round_trip no_lib ''DATETIME'' (Field ''d'' ''DATETIME'' ''NULLABLE'' [])
        (VDatetime \<lparr>dt_date = \<lparr>year = 999, month = 1, day = 2\<rparr>,
                    dt_timetz = \<lparr>hour = 3, minute = 4, second = 5, microsecond = 123456,
                                 tzinfo = None\<rparr>\<rparr>)
       = Inl (ValueError [])"
proof -
  have t: "valid_time \<lparr>hour = 12, minute = 30, second = 0, microsecond = 0, tzinfo = Some UTC\<rparr>
   \<and> round_trip no_lib ''TIME'' (Field ''t'' ''TIME'' ''NULLABLE'' [])
        (VTime \<lparr>hour = 12, minute = 30, second = 0, microsecond = 0, tzinfo = Some UTC\<rparr>)
       = Inl (ValueError ''Unknown time format: 12:30:00+00:00'')"
    by (simp add: round_trip_def SCALAR_VALUE_TO_JSON_ROW_def CELLDATA_FROM_JSON_def
        time_from_json_def not_null_def text_eval valid_time_def valid_tz_def Let_def)
  let ?dt = "\<lparr>dt_date = \<lparr>year = 999, month = 1, day = 2\<rparr>,
              dt_timetz = \<lparr>hour = 3, minute = 4, second = 5, microsecond = 123456, tzinfo = None\<rparr>\<rparr>"
  have v: "valid_datetime ?dt"
    by (simp add: valid_datetime_def valid_date_def valid_time_def valid_tz_def days_in_month_def
        DAYS_IN_MONTH_def)
  have e: "datetime_to_json (VDatetime ?dt) = Inr (VStr ''999-01-02T03:04:05.123456'')"
    by (simp add: datetime_to_json_def strftime_def RFC3339_MICROS_NO_ZULU_def text_eval)
  have d: "datetime_from_json (VStr ''999-01-02T03:04:05.123456'')
             (Some (Field ''d'' ''DATETIME'' ''NULLABLE'' [])) = Inl (ValueError [])"
    by (simp add: datetime_from_json_def not_null_def strptime_def RFC3339_MICROS_NO_ZULU_def
        is_digit_def)
  have r: "round_trip no_lib ''DATETIME'' (Field ''d'' ''DATETIME'' ''NULLABLE'' []) (VDatetime ?dt)
             = Inl (ValueError [])"
    using e d by (simp add: round_trip_def SCALAR_VALUE_TO_JSON_ROW_def CELLDATA_FROM_JSON_def)
  from t v e r show ?thesis by simp
qed

theorem scalar_round_trip_witness:
  "mode (Field ''c'' ''ANY'' ''NULLABLE'' []) = ''NULLABLE''
   \<and> round_trip no_lib ''INTEGER'' (Field ''c'' ''ANY'' ''NULLABLE'' []) (VInt (- 42)) = Inr (VInt (- 42))
   \<and> round_trip no_lib ''FLOAT'' (Field ''c'' ''ANY'' ''NULLABLE'' []) (VFloat (Finite (3 / 2)))
       = Inr (VFloat (Finite (3 / 2)))
   \<and> round_trip no_lib ''BOOL'' (Field ''c'' ''ANY'' ''NULLABLE'' []) (VBool True) = Inr (VBool True)
   \<and> round_trip no_lib ''DATE'' (Field ''c'' ''ANY'' ''NULLABLE'' [])
        (VDate \<lparr>year = 2020, month = 2, day = 29\<rparr>)
       = Inr (VDate \<lparr>year = 2020, month = 2, day = 29\<rparr>)
   \<and> round_trip no_lib ''TIME'' (Field ''c'' ''ANY'' ''NULLABLE'' [])
        (VTime \<lparr>hour = 12, minute = 30, second = 5, microsecond = 123, tzinfo = None\<rparr>)
       = Inr (VTime \<lparr>hour = 12, minute = 30, second = 5, microsecond = 123, tzinfo = None\<rparr>)
   \<and> round_trip no_lib ''DATETIME'' (Field ''c'' ''ANY'' ''NULLABLE'' [])
        (VDatetime \<lparr>dt_date = \<lparr>year = 2020, month = 2, day = 29\<rparr>,
                    dt_timetz = \<lparr>hour = 23, minute = 59, second = 59, microsecond = 0, tzinfo = None\<rparr>\<rparr>)
       = Inr (VDatetime \<lparr>dt_date = \<lparr>year = 2020, month = 2, day = 29\<rparr>,
                    dt_timetz = \<lparr>hour = 23, minute = 59, second = 59, microsecond = 0, tzinfo = None\<rparr>\<rparr>)"
proof -
  let ?f = "Field ''c'' ''ANY'' ''NULLABLE'' []"
  let ?d = "\<lparr>year = 2020, month = 2, day = 29\<rparr>"
  let ?t = "\<lparr>hour = 12, minute = 30, second = 5, microsecond = 123, tzinfo = None\<rparr>"
  let ?dt = "\<lparr>dt_date = ?d,
              dt_timetz = \<lparr>hour = 23, minute = 59, second = 59, microsecond = 0, tzinfo = None\<rparr>\<rparr>"
  have m: "mode ?f = ''NULLABLE''" by simp
  have vd: "valid_date ?d"
    by (simp add: valid_date_def days_in_month_def DAYS_IN_MONTH_def is_leap_def)
  have vt: "valid_time ?t" by (simp add: valid_time_def valid_tz_def)
  have vdt: "valid_datetime ?dt"
    by (simp add: valid_datetime_def valid_date_def valid_time_def valid_tz_def days_in_month_def
        DAYS_IN_MONTH_def is_leap_def)
  from scalar_round_trip [OF m, where L = no_lib and ty = "''INTEGER''" and i = "- 42"]
    scalar_round_trip [OF m, where L = no_lib and ty = "''FLOAT''" and x = "Finite (3 / 2)"]
    scalar_round_trip [OF m, where L = no_lib and ty = "''BOOL''" and b = True and d = ?d
      and t = ?t and dt = ?dt]
    m vd vt vdt
  show ?thesis by simp
qed



section \<open>The query-parameter encoding of a timestamp\<close>

lemma year_bound:
  fixes k :: nat
  assumes "k \<le> 3652058"
  shows "k div 146097 * 400 + 1 + k mod 146097 div 36524 * 100
         + k mod 146097 mod 36524 div 1461 * 4 + k mod 146097 mod 36524 mod 1461 div 365 \<le> 9999"
proof -
  define a where "a = k div 146097"
  define r1 where "r1 = k mod 146097"
  define b where "b = r1 div 36524"
  define r2 where "r2 = r1 mod 36524"
  define c where "c = r2 div 1461"
  define r3 where "r3 = r2 mod 1461"
  define e where "e = r3 div 365"
  define r4 where "r4 = r3 mod 365"
  have k: "k = 146097 * a + r1" by (simp add: a_def r1_def)
  have r1: "r1 = 36524 * b + r2" by (simp add: b_def r2_def)
  have r2: "r2 = 1461 * c + r3" by (simp add: c_def r3_def)
  have r3: "r3 = 365 * e + r4" by (simp add: e_def r4_def)
  have "r1 < 146097" by (simp add: r1_def)
  then have b: "b \<le> 4" unfolding b_def by simp
  have "r2 < 36524" by (simp add: r2_def)
  then have c: "c \<le> 24" unfolding c_def by simp
  have "r3 < 1461" by (simp add: r3_def)
  then have e: "e \<le> 4" unfolding e_def by simp
  from assms k have a: "a \<le> 24" by linarith
  have "a * 400 + 1 + b * 100 + c * 4 + e \<le> 9999"
  proof (cases "a \<le> 23")
    case True
    with b c e show ?thesis by linarith
  next
    case False
    with a have a24: "a = 24" by simp
    with assms k r1 have b3: "b \<le> 3" by linarith
    show ?thesis
    proof (cases "b \<le> 2")
      case True
      with a24 c e show ?thesis by linarith
    next
      case False
      with b3 have b3': "b = 3" by simp
      show ?thesis
      proof (cases "c \<le> 23")
        case True
        with a24 b3' e show ?thesis by linarith
      next
        case False
        with c have c24: "c = 24" by simp
        with assms k r1 r2 r3 a24 b3' have "e \<le> 2" by linarith
        with a24 b3' c24 show ?thesis by linarith
      qed
    qed
  qed
  then show ?thesis
    by (simp add: a_def r1_def b_def r2_def c_def r3_def e_def)
qed

lemma month_day_bound:
  fixes r :: nat and leap :: bool
  assumes "r < 365" and "m = (r + 50) div 32"
    and "preceding = DAYS_BEFORE_MONTH ! m + (if m > 2 \<and> leap then 1 else 0)"
  shows "1 \<le> m \<and> m \<le> 12
         \<and> (preceding > r \<longrightarrow>
              1 \<le> m - 1
              \<and> r - (preceding - (DAYS_IN_MONTH ! (m - 1) + (if m - 1 = 2 \<and> leap then 1 else 0))) + 1 \<le> 31)
         \<and> (\<not> preceding > r \<longrightarrow> r - preceding + 1 \<le> 31)"
proof -
  from assms(1) have m: "1 \<le> m" "m \<le> 12" unfolding assms(2) by simp_all
  have r: "32 * m \<le> r + 50" "r + 50 < 32 * m + 32"
    unfolding assms(2) by presburger+
  from month_cases [OF m] r assms(1) show ?thesis
    unfolding assms(3)
    by (elim insertE emptyE) (auto simp add: DAYS_BEFORE_MONTH_def DAYS_IN_MONTH_def)
qed

lemma ord2ymd_bounds:
  assumes "1 \<le> n" "n \<le> MAXORDINAL"
  shows "year (ord2ymd n) \<le> 9999 \<and> month (ord2ymd n) \<le> 12 \<and> day (ord2ymd n) \<le> 31"
proof -
  define k where "k = n - 1"
  define n100 where "n100 = k mod 146097 div 36524"
  define n4 where "n4 = k mod 146097 mod 36524 div 1461"
  define n1 where "n1 = k mod 146097 mod 36524 mod 1461 div 365"
  define r where "r = k mod 146097 mod 36524 mod 1461 mod 365"
  define y where "y = k div 146097 * 400 + 1 + n100 * 100 + n4 * 4 + n1"
  define leap where "leap = (n1 = 3 \<and> (n4 \<noteq> 24 \<or> n100 = 3))"
  define m where "m = (r + 50) div 32"
  define preceding where "preceding = DAYS_BEFORE_MONTH ! m + (if m > 2 \<and> leap then 1 else 0)"
  from assms have "k \<le> 3652058" by (simp add: k_def MAXORDINAL_def)
  from year_bound [OF this] have yb: "y \<le> 9999"
    by (simp add: y_def n100_def n4_def n1_def)
  have rb: "r < 365" by (simp add: r_def)
  note md = month_day_bound [OF rb m_def preceding_def]
  have "ord2ymd n =
      (if n1 = 4 \<or> n100 = 4 then \<lparr>year = y - 1, month = 12, day = 31\<rparr>
       else if preceding > r
         then \<lparr>year = y, month = m - 1,
               day = r - (preceding - (DAYS_IN_MONTH ! (m - 1)
                                       + (if m - 1 = 2 \<and> leap then 1 else 0))) + 1\<rparr>
         else \<lparr>year = y, month = m, day = r - preceding + 1\<rparr>)"
    by (simp only: ord2ymd_def Let_def k_def n100_def n4_def n1_def r_def y_def leap_def m_def
        preceding_def)
  note e = this
  show ?thesis
  proof (cases "n1 = 4 \<or> n100 = 4")
    case True
    with e yb show ?thesis by simp
  next
    case False
    note f = this
    show ?thesis
    proof (cases "preceding > r")
      case True
      from md have "m \<le> 12" by blast
      then have "m - 1 \<le> 12" by arith
      with True e f yb md show ?thesis by simp
    next
      case False
      with e f yb md show ?thesis by simp
    qed
  qed
qed


lemma has_form_append:
  "has_form p1 s1 \<Longrightarrow> has_form p2 s2 \<Longrightarrow> has_form (p1 @ p2) (s1 @ s2)"
  by (induction p1 s1 rule: has_form.induct) auto

lemma has_form_digits: "list_all is_digit s \<Longrightarrow> has_form (replicate (length s) CHR ''d'') s"
  by (induction s) auto

lemma has_form_zpad:
  "0 < w \<Longrightarrow> n < 10 ^ w \<Longrightarrow> has_form (replicate w CHR ''d'') (zpad w n)"
  using has_form_digits [OF zpad_digits [of w n]] by (simp add: length_zpad)

lemma replicate_d:
  "replicate 2 c = [c, c]" "replicate 4 c = [c, c, c, c]" "replicate 6 c = [c, c, c, c, c, c]"
  by (simp_all add: numeral_eq_Suc)

lemma has_form_date:
  assumes "year d \<le> 9999" "month d \<le> 12" "day d \<le> 31"
  shows "has_form ''dddd-dd-dd'' (date_isoformat d)"
proof -
  have y: "has_form ''dddd'' (zpad 4 (year d))"
    using has_form_zpad [of 4 "year d"] assms(1) by (simp add: replicate_d)
  have m: "has_form ''dd'' (zpad 2 (month d))"
    using has_form_zpad [of 2 "month d"] assms(2) by (simp add: replicate_d)
  have dd: "has_form ''dd'' (zpad 2 (day d))"
    using has_form_zpad [of 2 "day d"] assms(3) by (simp add: replicate_d)
  have s: "has_form ''-'' ''-''" by simp
  from has_form_append [OF y has_form_append [OF s has_form_append [OF m has_form_append [OF s dd]]]]
  show ?thesis by (simp add: date_isoformat_def)
qed

lemma has_form_time:
  assumes "hour t < 24" "minute t < 60" "second t < 60" "microsecond t < 1000000"
  shows "has_form (if microsecond t = 0 then ''dd:dd:dd'' else ''dd:dd:dd.dddddd'') (format_time t)"
proof -
  have h: "has_form ''dd'' (zpad 2 (hour t))"
    using has_form_zpad [of 2 "hour t"] assms(1) by (simp add: replicate_d)
  have m: "has_form ''dd'' (zpad 2 (minute t))"
    using has_form_zpad [of 2 "minute t"] assms(2) by (simp add: replicate_d)
  have s: "has_form ''dd'' (zpad 2 (second t))"
    using has_form_zpad [of 2 "second t"] assms(3) by (simp add: replicate_d)
  have u: "has_form ''dddddd'' (zpad 6 (microsecond t))"
    using has_form_zpad [of 6 "microsecond t"] assms(4) by (simp add: replicate_d)
  have c: "has_form '':'' '':''" and p: "has_form ''.'' ''.''" by simp_all
  have hms: "has_form ''dd:dd:dd''
      (zpad 2 (hour t) @ '':'' @ zpad 2 (minute t) @ '':'' @ zpad 2 (second t))"
    using has_form_append [OF h has_form_append [OF c has_form_append [OF m has_form_append [OF c s]]]]
    by simp
  show ?thesis
  proof (cases "microsecond t = 0")
    case True
    with hms show ?thesis by (simp add: format_time_def)
  next
    case False
    from has_form_append [OF hms has_form_append [OF p u]] False
    show ?thesis by (simp add: format_time_def)
  qed
qed

lemma has_form_param:
  assumes "year (dt_date u) \<le> 9999" "month (dt_date u) \<le> 12" "day (dt_date u) \<le> 31"
    and "hour (dt_timetz u) < 24" "minute (dt_timetz u) < 60" "second (dt_timetz u) < 60"
    and "microsecond (dt_timetz u) < 1000000"
  shows "has_form (if microsecond (dt_timetz u) = 0 then PARAM_FORM_NO_FRACTION else PARAM_FORM)
           (param_text u)"
proof -
  have i: "time_isoformat (dt_time u) = format_time (dt_timetz u)"
    by (simp add: time_isoformat_def dt_time_def format_offset_def format_time_def)
  have sp: "has_form '' '' '' ''" and z: "has_form ''+00:00'' ''+00:00''" by simp_all
  note t = has_form_time [OF assms(4-7)]
  note d = has_form_date [OF assms(1-3)]
  show ?thesis
  proof (cases "microsecond (dt_timetz u) = 0")
    case True
    with t have t': "has_form ''dd:dd:dd'' (format_time (dt_timetz u))" by simp
    from has_form_append [OF d has_form_append [OF sp has_form_append [OF t' z]]] True
    show ?thesis by (simp add: i PARAM_FORM_NO_FRACTION_def param_text_def)
  next
    case False
    with t have t': "has_form ''dd:dd:dd.dddddd'' (format_time (dt_timetz u))" by simp
    from has_form_append [OF d has_form_append [OF sp has_form_append [OF t' z]]] False
    show ?thesis by (simp add: i PARAM_FORM_def param_text_def)
  qed
qed


lemma dt_add_micros_bounds:
  assumes "dt_add_micros dt us = Inr u"
  shows "year (dt_date u) \<le> 9999 \<and> month (dt_date u) \<le> 12 \<and> day (dt_date u) \<le> 31
         \<and> hour (dt_timetz u) < 24 \<and> minute (dt_timetz u) < 60 \<and> second (dt_timetz u) < 60
         \<and> microsecond (dt_timetz u) < 1000000"
proof -
  define total where "total = int (ymd2ord (dt_date dt)) * 86400000000
      + int (hour (dt_timetz dt)) * 3600000000 + int (minute (dt_timetz dt)) * 60000000
      + int (second (dt_timetz dt)) * 1000000 + int (microsecond (dt_timetz dt)) + us"
  define days where "days = total div 86400000000"
  define r where "r = total mod 86400000000"
  have r: "0 \<le> r" "r < 86400000000" by (simp_all add: r_def)
  from assms have ok: "0 < days" "days \<le> int MAXORDINAL"
    and u: "u = \<lparr>dt_date = ord2ymd (nat days),
                  dt_timetz = \<lparr>hour = nat (r div 3600000000),
                               minute = nat (r div 60000000 mod 60),
                               second = nat (r div 1000000 mod 60),
                               microsecond = nat (r mod 1000000),
                               tzinfo = tzinfo (dt_timetz dt)\<rparr>\<rparr>"
    by (auto simp: dt_add_micros_def Let_def total_def days_def r_def split: if_splits)
  from ok have "1 \<le> nat days" "nat days \<le> MAXORDINAL" by simp_all
  from ord2ymd_bounds [OF this] have d: "year (dt_date u) \<le> 9999 \<and> month (dt_date u) \<le> 12
      \<and> day (dt_date u) \<le> 31" by (simp add: u)
  from r have "r div 3600000000 < 24" by simp
  with r have h: "hour (dt_timetz u) < 24" by (simp add: u)
  have "minute (dt_timetz u) < 60" "second (dt_timetz u) < 60" "microsecond (dt_timetz u) < 1000000"
    using r by (simp_all add: u nat_less_iff)
  with d h show ?thesis by simp
qed



lemma valid_datetime_bounds:
  assumes "valid_datetime dt"
  shows "year (dt_date dt) \<le> 9999" "month (dt_date dt) \<le> 12" "day (dt_date dt) \<le> 31"
    "hour (dt_timetz dt) < 24" "minute (dt_timetz dt) < 60" "second (dt_timetz dt) < 60"
    "microsecond (dt_timetz dt) < 1000000"
proof -
  from assms have b: "1 \<le> month (dt_date dt)" "month (dt_date dt) \<le> 12"
    "day (dt_date dt) \<le> days_in_month (year (dt_date dt)) (month (dt_date dt))"
    by (simp_all add: valid_datetime_def valid_date_def)
  with days_in_month_le [of "month (dt_date dt)" "year (dt_date dt)"]
  show "day (dt_date dt) \<le> 31" by simp
qed (use assms in \<open>simp_all add: valid_datetime_def valid_date_def valid_time_def\<close>)

text \<open>
  C7, amended: for a datetime without zone or in UTC, \<^verbatim>\<open>_timestamp_to_json_parameter\<close>
  returns its date, a space, its time of day and \<^verbatim>\<open>+00:00\<close>; for a datetime in another
  zone it first subtracts the offset and drops the zone, which raises \<^verbatim>\<open>OverflowError\<close>
  when the result leaves the years 1 to 9999, and otherwise returns the same text for the
  UTC value. The text has the form \<^verbatim>\<open>YYYY-MM-DD HH:MM:SS.ffffff+00:00\<close> when the
  microsecond of the UTC value is not zero, and the form \<^verbatim>\<open>YYYY-MM-DD HH:MM:SS+00:00\<close>,
  without a fraction, when it is zero.
\<close>

theorem timestamp_to_json_parameter_form:
  assumes "valid_datetime dt"
  shows "(tzinfo (dt_timetz dt) \<in> {None, Some UTC} \<longrightarrow>
            timestamp_to_json_parameter (VDatetime dt) = Inr (VStr (param_text dt))
            \<and> has_form (if microsecond (dt_timetz dt) = 0 then PARAM_FORM_NO_FRACTION else PARAM_FORM)
                 (param_text dt))
       \<and> (\<forall>off. tzinfo (dt_timetz dt) = Some (FixedOffset off) \<longrightarrow>
            (case dt_add_micros (replace_tzinfo dt None) (- off) of
               Inl e \<Rightarrow> timestamp_to_json_parameter (VDatetime dt) = Inl e
             | Inr u \<Rightarrow>
                 timestamp_to_json_parameter (VDatetime dt) = Inr (VStr (param_text u))
                 \<and> has_form (if microsecond (dt_timetz u) = 0 then PARAM_FORM_NO_FRACTION
                              else PARAM_FORM) (param_text u)))"
proof (intro conjI impI allI)
  assume "tzinfo (dt_timetz dt) \<in> {None, Some UTC}"
  then show "timestamp_to_json_parameter (VDatetime dt) = Inr (VStr (param_text dt))"
    by (auto simp: timestamp_to_json_parameter_def)
next
  show "has_form (if microsecond (dt_timetz dt) = 0 then PARAM_FORM_NO_FRACTION else PARAM_FORM)
          (param_text dt)"
    by (rule has_form_param) (rule valid_datetime_bounds [OF assms])+
next
  fix off
  assume z: "tzinfo (dt_timetz dt) = Some (FixedOffset off)"
  show "case dt_add_micros (replace_tzinfo dt None) (- off) of
          Inl e \<Rightarrow> timestamp_to_json_parameter (VDatetime dt) = Inl e
        | Inr u \<Rightarrow>
            timestamp_to_json_parameter (VDatetime dt) = Inr (VStr (param_text u))
            \<and> has_form (if microsecond (dt_timetz u) = 0 then PARAM_FORM_NO_FRACTION
                         else PARAM_FORM) (param_text u)"
  proof (cases "dt_add_micros (replace_tzinfo dt None) (- off)")
    case (Inl e)
    with z show ?thesis by (simp add: timestamp_to_json_parameter_def)
  next
    case (Inr u)
    from dt_add_micros_bounds [OF Inr]
    have "has_form (if microsecond (dt_timetz u) = 0 then PARAM_FORM_NO_FRACTION else PARAM_FORM)
            (param_text u)"
      by (intro has_form_param) simp_all
    with z Inr show ?thesis by (simp add: timestamp_to_json_parameter_def)
  qed
qed


text \<open>
  C7, as stated, fails on a datetime whose microsecond is zero: \<^verbatim>\<open>time.isoformat()\<close>
  leaves the fraction out, so the text has no six-digit fractional part. It also fails
  on 0001-01-01 00:00:00+01:00, where the subtraction of the offset raises.
\<close>

theorem timestamp_to_json_parameter_counterexample:
  "valid_datetime \<lparr>dt_date = \<lparr>year = 2020, month = 1, day = 1\<rparr>,
                    dt_timetz = \<lparr>hour = 12, minute = 0, second = 0, microsecond = 0, tzinfo = None\<rparr>\<rparr>
   \<and> timestamp_to_json_parameter
        (VDatetime \<lparr>dt_date = \<lparr>year = 2020, month = 1, day = 1\<rparr>,
                    dt_timetz = \<lparr>hour = 12, minute = 0, second = 0, microsecond = 0, tzinfo = None\<rparr>\<rparr>)
       = Inr (VStr ''2020-01-01 12:00:00+00:00'')
   \<and> \<not> has_form PARAM_FORM ''2020-01-01 12:00:00+00:00''
   \<and> valid_datetime \<lparr>dt_date = \<lparr>year = 1, month = 1, day = 1\<rparr>,
                       dt_timetz = \<lparr>hour = 0, minute = 0, second = 0, microsecond = 0,
                                    tzinfo = Some (FixedOffset 3600000000)\<rparr>\<rparr>
   \<and> timestamp_to_json_parameter
        (VDatetime \<lparr>dt_date = \<lparr>year = 1, month = 1, day = 1\<rparr>,
                    dt_timetz = \<lparr>hour = 0, minute = 0, second = 0, microsecond = 0,
                                 tzinfo = Some (FixedOffset 3600000000)\<rparr>\<rparr>)
       = Inl (OverflowError [])"
  by (simp add: timestamp_to_json_parameter_def text_eval PARAM_FORM_def is_digit_def
      valid_datetime_def valid_date_def valid_time_def valid_tz_def days_in_month_def
      DAYS_IN_MONTH_def dt_add_micros_def replace_tzinfo_def ymd2ord_def days_before_year_def
      days_before_month_def DAYS_BEFORE_MONTH_def is_leap_def MAXORDINAL_def Let_def)


theorem timestamp_to_json_parameter_form_witness:
  "valid_datetime \<lparr>dt_date = \<lparr>year = 2016, month = 12, day = 20\<rparr>,
                    dt_timetz = \<lparr>hour = 15, minute = 58, second = 27, microsecond = 339328,
                                 tzinfo = Some (FixedOffset (- 18000000000))\<rparr>\<rparr>
   \<and> timestamp_to_json_parameter
        (VDatetime \<lparr>dt_date = \<lparr>year = 2016, month = 12, day = 20\<rparr>,
                    dt_timetz = \<lparr>hour = 15, minute = 58, second = 27, microsecond = 339328,
                                 tzinfo = Some (FixedOffset (- 18000000000))\<rparr>\<rparr>)
       = Inr (VStr ''2016-12-20 20:58:27.339328+00:00'')
   \<and> has_form PARAM_FORM ''2016-12-20 20:58:27.339328+00:00''"
proof -
  let ?dt = "\<lparr>dt_date = \<lparr>year = 2016, month = 12, day = 20\<rparr>,
              dt_timetz = \<lparr>hour = 15, minute = 58, second = 27, microsecond = 339328,
                           tzinfo = Some (FixedOffset (- 18000000000))\<rparr>\<rparr>"
  let ?u = "\<lparr>dt_date = \<lparr>year = 2016, month = 12, day = 20\<rparr>,
             dt_timetz = \<lparr>hour = 20, minute = 58, second = 27, microsecond = 339328,
                          tzinfo = None\<rparr>\<rparr>"
  have v: "valid_datetime ?dt"
    by (simp add: valid_datetime_def valid_date_def valid_time_def valid_tz_def days_in_month_def
        DAYS_IN_MONTH_def)
  have a: "dt_add_micros (replace_tzinfo ?dt None) (- (- 18000000000)) = Inr ?u"
    by (simp add: dt_add_micros_def replace_tzinfo_def ymd2ord_def days_before_year_def
        days_before_month_def DAYS_BEFORE_MONTH_def DAYS_IN_MONTH_def is_leap_def MAXORDINAL_def
        ord2ymd_def Let_def)
  have p: "param_text ?u = ''2016-12-20 20:58:27.339328+00:00''"
    by (simp add: text_eval)
  from timestamp_to_json_parameter_form [OF v] a p v show ?thesis by simp
qed


section \<open>Nested properties: deletion\<close>

lemma fmupd_same_lookup: "fmlookup m k = Some v \<Longrightarrow> fmupd k v m = m"
  by (rule fmap_ext) auto

lemma del_loop_absent:
  "get_loop container ks VNone = Inr parent \<Longrightarrow> py_contains k parent = Inr False
   \<Longrightarrow> del_loop container (ks @ [k]) = Inr container"
proof (induction ks arbitrary: container)
  case Nil
  then show ?case by simp
next
  case (Cons key rest)
  obtain r rs where rk: "rest @ [k] = r # rs" by (cases "rest @ [k]") auto
  show ?case
  proof (cases container)
    case (VDict m)
    show ?thesis
    proof (cases "fmlookup m key")
      case None
      with Cons.prems VDict show ?thesis by auto
    next
      case (Some child)
      with Cons.prems VDict have "get_loop child rest VNone = Inr parent" by simp
      from Cons.IH[OF this Cons.prems(2)] have "del_loop child (r # rs) = Inr child"
        by (simp add: rk)
      with Some VDict show ?thesis by (simp add: rk fmupd_same_lookup)
    qed
  qed (use Cons.prems in \<open>auto split: if_splits\<close>)
qed

text \<open>
  C8, as stated, fails: on the empty mapping and the path \<open>a, b\<close> the final key is absent
  (\<^verbatim>\<open>_get_sub_prop\<close> returns the default), no exception is raised, but the walk over
  \<^verbatim>\<open>keys[:-1]\<close> has stored an empty mapping under \<open>a\<close>: the container is no longer
  the one that was passed in.
\<close>

theorem del_sub_prop_counterexample:
  "get_sub_prop (VDict fmempty) (KeyPath [''a'', ''b'']) VNone = Inr VNone
   \<and> del_sub_prop (VDict fmempty) (KeyPath [''a'', ''b''])
       = Inr (VDict (fmupd ''a'' (VDict fmempty) fmempty))
   \<and> del_sub_prop (VDict fmempty) (KeyPath [''a'', ''b'']) \<noteq> Inr (VDict fmempty)"
  by (simp add: fmap_ext)

lemma fmupd_twice: "fmupd k v (fmupd k w m) = fmupd k v m"
  by (rule fmap_ext) simp

lemma del_loop_empty:
  "rest \<noteq> [] \<Longrightarrow> del_loop (VDict fmempty) rest = Inr (VDict (created rest))"
proof (induction rest)
  case Nil
  then show ?case by simp
next
  case (Cons k rest)
  show ?case
  proof (cases rest)
    case Nil
    then show ?thesis by simp
  next
    case (Cons r rs)
    with Cons.IH have "del_loop (VDict fmempty) (r # rs) = Inr (VDict (created (r # rs)))" by simp
    with Cons show ?thesis by (simp add: fmupd_twice)
  qed
qed

lemma del_loop_creates:
  assumes "fmlookup m k = None" "rest \<noteq> []"
  shows "del_loop (VDict m) (k # rest) = Inr (VDict (fmupd k (VDict (created rest)) m))"
proof -
  from assms(2) obtain r rs where r: "rest = r # rs" by (cases rest) auto
  from del_loop_empty [OF assms(2)] r
  have "del_loop (VDict fmempty) (r # rs) = Inr (VDict (created (r # rs)))" by simp
  with assms(1) r show ?thesis by (simp add: fmupd_twice)
qed

lemma del_loop_below:
  "get_loop container ks VNone = Inr (VDict p) \<Longrightarrow> path \<noteq> []
   \<Longrightarrow> del_loop (VDict p) path = Inr sub'
   \<Longrightarrow> \<exists>result. del_loop container (ks @ path) = Inr result
                \<and> get_loop result ks VNone = Inr sub'"
proof (induction ks arbitrary: container)
  case Nil
  then show ?case by simp
next
  case (Cons key ks)
  from Cons.prems(2) obtain r rs where rk: "ks @ path = r # rs" by (cases "ks @ path") auto
  show ?case
  proof (cases container)
    case (VDict m)
    show ?thesis
    proof (cases "fmlookup m key")
      case None
      with Cons.prems(1) VDict show ?thesis by simp
    next
      case (Some child)
      with Cons.prems(1) VDict have "get_loop child ks VNone = Inr (VDict p)" by simp
      from Cons.IH [OF this Cons.prems(2,3)] obtain child' where
        c: "del_loop child (r # rs) = Inr child'" "get_loop child' ks VNone = Inr sub'"
        by (auto simp: rk)
      with Some VDict show ?thesis by (simp add: rk)
    qed
  qed (use Cons.prems(1) in \<open>auto split: if_splits\<close>)
qed

text \<open>
  C8, amended. When every key before the last one leads to an existing value
  (\<^verbatim>\<open>_get_sub_prop\<close> on \<^verbatim>\<open>keys[:-1]\<close> reaches \<open>parent\<close>) and the last key is not in
  \<open>parent\<close>, \<^verbatim>\<open>_del_sub_prop\<close> raises nothing and leaves the container as it was. When
  the keys \<open>ks\<close> lead to a mapping \<open>p\<close> in which the next key \<open>k\<close> is absent, and
  further keys \<open>rest\<close> follow, \<^verbatim>\<open>_del_sub_prop\<close> raises nothing either, but the mapping
  reached by \<open>ks\<close> afterwards holds a new mapping under \<open>k\<close> (empty when only the final
  key follows), and the container is not the one that was passed in.
\<close>

theorem del_sub_prop_absent:
  "(get_sub_prop container (KeyPath ks) VNone = Inr parent \<longrightarrow> py_contains k parent = Inr False
      \<longrightarrow> del_sub_prop container (KeyPath (ks @ [k])) = Inr container)
   \<and> (get_sub_prop container (KeyPath ks) VNone = Inr (VDict p) \<longrightarrow> fmlookup p k = None
      \<longrightarrow> rest \<noteq> []
      \<longrightarrow> (\<exists>result. del_sub_prop container (KeyPath (ks @ k # rest)) = Inr result
            \<and> get_sub_prop result (KeyPath ks) VNone
                = Inr (VDict (fmupd k (VDict (created rest)) p))
            \<and> result \<noteq> container))"
proof (intro conjI impI)
  assume "get_sub_prop container (KeyPath ks) VNone = Inr parent" "py_contains k parent = Inr False"
  then show "del_sub_prop container (KeyPath (ks @ [k])) = Inr container"
    by (simp add: del_loop_absent)
next
  assume g: "get_sub_prop container (KeyPath ks) VNone = Inr (VDict p)"
    and a: "fmlookup p k = None" and r: "rest \<noteq> []"
  from g have g': "get_loop container ks VNone = Inr (VDict p)" by simp
  from del_loop_below [OF g' _ del_loop_creates [OF a r]] obtain result where
    res: "del_loop container (ks @ k # rest) = Inr result"
      "get_loop result ks VNone = Inr (VDict (fmupd k (VDict (created rest)) p))"
    by auto
  have "fmupd k (VDict (created rest)) p \<noteq> p"
  proof
    assume "fmupd k (VDict (created rest)) p = p"
    then have "fmlookup (fmupd k (VDict (created rest)) p) k = fmlookup p k" by simp
    with a show False by simp
  qed
  with res(2) g' have "result \<noteq> container" by auto
  with res show "\<exists>result. del_sub_prop container (KeyPath (ks @ k # rest)) = Inr result
            \<and> get_sub_prop result (KeyPath ks) VNone
                = Inr (VDict (fmupd k (VDict (created rest)) p))
            \<and> result \<noteq> container"
    by auto
qed

theorem del_sub_prop_absent_witness:
  "get_sub_prop (VDict (fmupd ''a'' (VDict fmempty) fmempty)) (KeyPath [''a'']) VNone
     = Inr (VDict fmempty)
   \<and> py_contains ''b'' (VDict fmempty) = Inr False
   \<and> del_sub_prop (VDict (fmupd ''a'' (VDict fmempty) fmempty)) (KeyPath ([''a''] @ [''b'']))
     = Inr (VDict (fmupd ''a'' (VDict fmempty) fmempty))
   \<and> fmlookup fmempty ''b'' = (None :: pyval option)
   \<and> [''c''] \<noteq> []
   \<and> (\<exists>result. del_sub_prop (VDict (fmupd ''a'' (VDict fmempty) fmempty))
                   (KeyPath ([''a''] @ ''b'' # [''c''])) = Inr result
          \<and> get_sub_prop result (KeyPath [''a'']) VNone
              = Inr (VDict (fmupd ''b'' (VDict fmempty) fmempty))
          \<and> result \<noteq> VDict (fmupd ''a'' (VDict fmempty) fmempty))"
proof -
  have g: "get_sub_prop (VDict (fmupd ''a'' (VDict fmempty) fmempty)) (KeyPath [''a'']) VNone
     = Inr (VDict fmempty)" by simp
  have c: "py_contains ''b'' (VDict fmempty) = Inr False" by simp
  have n: "fmlookup fmempty ''b'' = (None :: pyval option)" by simp
  have r: "[''c''] \<noteq> []" by simp
  from del_sub_prop_absent [where container = "VDict (fmupd ''a'' (VDict fmempty) fmempty)"
      and ks = "[''a'']" and parent = "VDict fmempty" and p = fmempty and k = "''b''"
      and rest = "[''c'']"] g c n r
  show ?thesis by simp
qed


end
